theory Spec2Isabelle
  imports Main "HOL-Library.Word"
begin

section \<open>Data model of agent/agent.go\<close>

text \<open>
  The Go structs become records with the field names of the source; fields of different
  structs that share a name are told apart by the record's name
  (\<open>Tool.Name\<close>, \<open>apiFunctionCall.Name\<close>). Fields that no modelled function reads
  (the parameter schema of a tool, the sampling temperature) are left out.

  Token counters are decoded from the endpoint's JSON into Go's 64-bit \<open>int\<close>, so they
  are 64-bit words and \<open>+\<close> wraps as it does in Go. The two loop counters start at zero
  and grow by one per iteration; they are unbounded integers, since a wrap would take
  \<open>2 ^ 63\<close> iterations.
\<close>

record Config =
  APIKey :: string
  APIURL :: string
  Model :: string
  SystemPrompt :: string
  MaxLoops :: int

record Usage =
  PromptTokens :: "64 word"
  CompletionTokens :: "64 word"
  TotalTokens :: "64 word"

record Response =
  Content :: string
  Usage :: Usage
  FinishReason :: string
  LoopCount :: int

record apiFunctionCall =
  Name :: string
  Arguments :: string

record apiToolCall =
  ID :: string
  Type :: string
  Function :: apiFunctionCall

record apiMessage =
  Role :: string
  Content :: string
  ToolCalls :: "apiToolCall list"
  ToolCallID :: string

record apiChoice =
  Index :: int
  Message :: apiMessage
  FinishReason :: string

record apiResponse =
  ID :: string
  Choices :: "apiChoice list"
  Usage :: Usage

text \<open>
  The conversation is a \<open>[]any\<close> whose elements are built in three shapes only:
  \<open>{"role": r, "content": c}\<close>, \<open>{"role": "assistant", "tool_calls": tcs}\<close> and
  \<open>{"role": "tool", "content": c, "tool_call_id": id}\<close>.
\<close>

datatype message =
    RoleContent string string
  | AssistantToolCalls "apiToolCall list"
  | ToolResponse string string

text \<open>
  The errors of the source are \<open>fmt.Errorf\<close> values; \<open>error_string\<close> gives their
  text. The two runtime panics the modelled code can raise are errors of the model too.
\<close>

datatype error =
    IterationLimitExceeded int
  | APICallError string
  | EncodeToolResult string
  | NoResponseFromAPI
  | SessionClosed
  | ContextCancelled
  | PanicIndexOutOfRange
  | PanicNilDereference
  | PanicCloseOfClosedChannel

text \<open>\<open>%d\<close> of \<open>fmt.Sprintf\<close>: decimal digits, with a sign for negative numbers.\<close>

fun digits :: "nat \<Rightarrow> string" where
  "digits n = (if n < 10 then [char_of (48 + n)] else digits (n div 10) @ [char_of (48 + n mod 10)])"

declare digits.simps [simp del]

definition show_int :: "int \<Rightarrow> string" where
  "show_int i = (if i < 0 then CHR ''-'' # digits (nat (- i)) else digits (nat i))"

fun error_string :: "error \<Rightarrow> string" where
  "error_string (IterationLimitExceeded k) = ''maximum loop iterations ('' @ show_int k @ '') exceeded''"
| "error_string (APICallError e) = ''API call error: '' @ e"
| "error_string (EncodeToolResult e) = ''error encoding tool result: '' @ e"
| "error_string NoResponseFromAPI = ''no response from API''"
| "error_string SessionClosed = ''session is closed''"
| "error_string ContextCancelled = ''session context cancelled''"
| "error_string PanicIndexOutOfRange = ''runtime error: index out of range''"
| "error_string PanicNilDereference = ''runtime error: invalid memory address or nil pointer dereference''"
| "error_string PanicCloseOfClosedChannel = ''close of closed channel''"

text \<open>
  A tool handler is Go code of the caller: it receives the raw arguments, may read and
  change the outside world \<open>'w\<close>, and returns a value of type \<open>'v\<close> (Go's \<open>any\<close>) or
  an error, of which the loop only uses the text.
\<close>

record ('v, 'w) Tool =
  Name :: string
  Description :: string
  Handler :: "string \<Rightarrow> 'w \<Rightarrow> (string + 'v) \<times> 'w"

text \<open>
  The \<open>client\<close> field stands for the HTTP round trip of \<open>callAPI\<close>: given the
  conversation it answers with a decoded response or fails, and moves the world on.
\<close>

record ('v, 'w) Agent =
  config :: Config
  tools :: "string \<rightharpoonup> ('v, 'w) Tool"
  client :: "message list \<Rightarrow> 'w \<Rightarrow> (string + apiResponse) \<times> 'w"

text \<open>
  The environment of a run: the outside world, and a record of every call made to the
  endpoint (the conversation sent and the answer received), oldest first. The record is
  a ghost: no Go variable holds it, only \<open>callAPI\<close> extends it, and nothing reads it.
\<close>

record 'w env =
  world :: 'w
  calls :: "(message list \<times> (string + apiResponse)) list"

section \<open>Construction and the tool registry\<close>

definition New :: "Config \<Rightarrow> (message list \<Rightarrow> 'w \<Rightarrow> (string + apiResponse) \<times> 'w) \<Rightarrow> string + ('v, 'w) Agent" where
  "New cfg http =
     (if APIURL cfg = [] then Inl ''API URL is required''
      else if APIKey cfg = [] then Inl ''API key is required''
      else if Model cfg = [] then Inl ''model is required''
      else if SystemPrompt cfg = [] then Inl ''system prompt is required''
      else Inr \<lparr>config = (if MaxLoops cfg = 0 then cfg\<lparr>MaxLoops := 20\<rparr> else cfg),
                tools = Map.empty, client = http\<rparr>)"

definition RegisterTool :: "('v, 'w) Agent \<Rightarrow> ('v, 'w) Tool \<Rightarrow> ('v, 'w) Agent" where
  "RegisterTool a tool = a\<lparr>tools := (tools a)(Tool.Name tool \<mapsto> tool)\<rparr>"

definition executeTool :: "('v, 'w) Agent \<Rightarrow> string \<Rightarrow> string \<Rightarrow> 'w \<Rightarrow> (string + 'v) \<times> 'w" where
  "executeTool a name args w =
     (case tools a name of
        None \<Rightarrow> (Inl (''tool not found: '' @ name), w)
      | Some tool \<Rightarrow> Handler tool args w)"

definition callAPI :: "('v, 'w) Agent \<Rightarrow> message list \<Rightarrow> 'w env \<Rightarrow> (string + apiResponse) \<times> 'w env" where
  "callAPI a msgs e =
     (case client a msgs (world e) of
        (r, w') \<Rightarrow> (r, \<lparr>world = w', calls = calls e @ [(msgs, r)]\<rparr>))"

text \<open>\<open>fmt.Sprintf(`{"error": "%s"}`, err.Error())\<close>\<close>

definition errorPayload :: "string \<Rightarrow> string" where
  \<open>errorPayload msg = ''{"error": "'' @ msg @ ''"}''\<close>

definition addUsage :: "Usage \<Rightarrow> Usage \<Rightarrow> Usage" where
  "addUsage t u =
     \<lparr>PromptTokens = PromptTokens t + PromptTokens u,
      CompletionTokens = CompletionTokens t + CompletionTokens u,
      TotalTokens = TotalTokens t + TotalTokens u\<rparr>"

definition zeroUsage :: Usage where
  "zeroUsage = \<lparr>PromptTokens = 0, CompletionTokens = 0, TotalTokens = 0\<rparr>"

section \<open>Run: the one-shot loop\<close>

text \<open>
  The block \<open>var content string; if err != nil { ... } else { ... }\<close>, which the two
  loops share word for word: the text that goes into the tool message, or the error of
  \<open>json.Marshal\<close> that makes the loop return. The first argument is \<open>json.Marshal\<close>
  on the values handlers return: the encoded text, or the text of its error.
\<close>

definition toolContent :: "('v \<Rightarrow> string + string) \<Rightarrow> string + 'v \<Rightarrow> string + string" where
  "toolContent marshal r =
     (case r of
        Inl err \<Rightarrow> Inr (errorPayload err)
      | Inr result \<Rightarrow>
          (case marshal result of
             Inl err \<Rightarrow> Inl err
           | Inr resultJSON \<Rightarrow> Inr resultJSON))"

text \<open>
  The inner \<open>for _, toolCall := range ...\<close> of \<open>Run\<close>. On an encoding error the
  loop returns at once, with the conversation as it stands.
\<close>

fun runToolCalls ::
  "('v \<Rightarrow> string + string) \<Rightarrow> ('v, 'w) Agent \<Rightarrow> apiToolCall list \<Rightarrow> message list \<Rightarrow> 'w
     \<Rightarrow> error option \<times> message list \<times> 'w" where
  "runToolCalls marshal a [] msgs w = (None, msgs, w)"
| "runToolCalls marshal a (toolCall # rest) msgs w =
     (case executeTool a (apiFunctionCall.Name (Function toolCall)) (Arguments (Function toolCall)) w of
        (r, w') \<Rightarrow>
          (case toolContent marshal r of
             Inl err \<Rightarrow> (Some (EncodeToolResult err), msgs, w')
           | Inr content \<Rightarrow>
               runToolCalls marshal a rest (msgs @ [ToolResponse content (apiToolCall.ID toolCall)]) w'))"

record 'w run_state =
  r_messages :: "message list"
  r_reason :: string
  r_loopCount :: int
  r_lastResponse :: "apiResponse option"
  r_totalUsage :: Usage
  r_env :: "'w env"

text \<open>
  How a pass through the body of a loop ends: the loop condition is tested again
  (\<open>Next\<close>), or the function returns or panics from inside the loop with an error
  (\<open>Abort\<close>); either way with the variables as the pass leaves them.
\<close>

datatype 'st step = Next (state_of: 'st) | Abort error (state_of: 'st)

text \<open>One pass through the body of \<open>for reason != "stop"\<close> in \<open>Run\<close>.\<close>

definition Run_body ::
  "('v \<Rightarrow> string + string) \<Rightarrow> ('v, 'w) Agent \<Rightarrow> 'w run_state \<Rightarrow> 'w run_state step" where
  "Run_body marshal a st =
     (let st = st\<lparr>r_loopCount := r_loopCount st + 1\<rparr> in
      if r_loopCount st > MaxLoops (config a)
      then Abort (IterationLimitExceeded (MaxLoops (config a))) st
      else
        case callAPI a (r_messages st) (r_env st) of
          (Inl err, e) \<Rightarrow> Abort (APICallError err) (st\<lparr>r_env := e\<rparr>)
        | (Inr resp, e) \<Rightarrow>
            (let st = st\<lparr>r_env := e, r_lastResponse := Some resp\<rparr> in
             case Choices resp of
               [] \<Rightarrow> Abort PanicIndexOutOfRange st
             | choice # _ \<Rightarrow>
                 (let st = st\<lparr>r_reason := apiChoice.FinishReason choice,
                              r_totalUsage := addUsage (r_totalUsage st) (apiResponse.Usage resp)\<rparr> in
                  if r_reason st = ''tool_calls''
                  then
                    (case runToolCalls marshal a (ToolCalls (Message choice))
                            (r_messages st @ [AssistantToolCalls (ToolCalls (Message choice))])
                            (world (r_env st)) of
                       (Some err, msgs, w) \<Rightarrow>
                         Abort err (st\<lparr>r_messages := msgs, r_env := (r_env st)\<lparr>world := w\<rparr>\<rparr>)
                     | (None, msgs, w) \<Rightarrow>
                         Next (st\<lparr>r_messages := msgs, r_env := (r_env st)\<lparr>world := w\<rparr>\<rparr>))
                  else Next st)))"

text \<open>
  The loop. Each pass that goes on has raised the counter by one without passing the
  ceiling, so the loop ends.
\<close>

function Run_loop ::
  "('v \<Rightarrow> string + string) \<Rightarrow> ('v, 'w) Agent \<Rightarrow> 'w run_state \<Rightarrow> error option \<times> 'w run_state" where
  "Run_loop marshal a st =
     (if r_reason st = ''stop'' then (None, st)
      else case Run_body marshal a st of
             Next st' \<Rightarrow> Run_loop marshal a st'
           | Abort err st' \<Rightarrow> (Some err, st'))"
  by pat_completeness auto
termination
proof (relation "measure (\<lambda>(marshal, a, st). nat (MaxLoops (config a) - r_loopCount st))")
  show "wf (measure (\<lambda>(marshal, a, st). nat (MaxLoops (config a) - r_loopCount st)))"
    by simp
next
  fix marshal :: "'v \<Rightarrow> string + string" and a :: "('v, 'w) Agent"
    and st st' :: "'w run_state"
  assume "Run_body marshal a st = Next st'"
  then have "r_loopCount st' = r_loopCount st + 1 \<and> r_loopCount st' \<le> MaxLoops (config a)"
    by (auto simp: Run_body_def Let_def
          split: if_splits prod.splits sum.splits list.splits option.splits)
  then show "((marshal, a, st'), (marshal, a, st))
          \<in> measure (\<lambda>(marshal, a, st). nat (MaxLoops (config a) - r_loopCount st))"
    by simp
qed

declare Run_loop.simps [simp del]

definition Run_init :: "('v, 'w) Agent \<Rightarrow> string \<Rightarrow> 'w env \<Rightarrow> 'w run_state" where
  "Run_init a prompt e =
     \<lparr>r_messages = [RoleContent ''system'' (SystemPrompt (config a)), RoleContent ''user'' prompt],
      r_reason = [], r_loopCount = 0, r_lastResponse = None, r_totalUsage = zeroUsage, r_env = e\<rparr>"

text \<open>The code of \<open>Run\<close> after the loop, or the \<open>return nil, err\<close> inside it.\<close>

definition Run_result :: "error option \<times> 'w run_state \<Rightarrow> (error + Response) \<times> 'w env" where
  "Run_result out =
     (case out of
        (Some err, st) \<Rightarrow> (Inl err, r_env st)
      | (None, st) \<Rightarrow>
          (case r_lastResponse st of
             None \<Rightarrow> (Inl PanicNilDereference, r_env st)
           | Some lastResponse \<Rightarrow>
               (case Choices lastResponse of
                  [] \<Rightarrow> (Inl NoResponseFromAPI, r_env st)
                | choice # _ \<Rightarrow>
                    (Inr \<lparr>Response.Content = apiMessage.Content (Message choice),
                          Response.Usage = r_totalUsage st,
                          Response.FinishReason = apiChoice.FinishReason choice,
                          LoopCount = r_loopCount st\<rparr>, r_env st))))"

definition Run ::
  "('v \<Rightarrow> string + string) \<Rightarrow> ('v, 'w) Agent \<Rightarrow> string \<Rightarrow> 'w env \<Rightarrow> (error + Response) \<times> 'w env" where
  "Run marshal a prompt e = Run_result (Run_loop marshal a (Run_init a prompt e))"

section \<open>Session: the interactive loop\<close>

datatype EventType =
    EventIterationStart
  | EventToolCall
  | EventToolResult
  | EventNeedInput
  | EventTurnComplete
  | EventError

text \<open>\<open>Data\<close> holds a string or stays \<open>nil\<close>.\<close>

record AgentEvent =
  Type :: EventType
  Content :: string
  Data :: "string option"
  Iteration :: int

text \<open>
  A channel is what was sent on it, oldest first, and whether it has been closed.
  Closing a closed channel panics.
\<close>

record 'a chan =
  sent :: "'a list"
  is_closed :: bool

definition close_chan :: "'a chan \<Rightarrow> error + 'a chan" where
  "close_chan c = (if is_closed c then Inl PanicCloseOfClosedChannel else Inr (c\<lparr>is_closed := True\<rparr>))"

text \<open>
  The session is modelled for one thread of control: a turn launched by \<open>Send\<close> runs to
  its end before the caller's next operation, which is the discipline the package asks
  of its callers. The mutex is therefore left out, and the agent an operation needs is
  passed to it. \<open>ctx_done\<close> says that \<open>s.ctx.Done()\<close> is closed.

  \<open>picks\<close> is a ghost field, the part of the Go runtime a session meets: when both cases
  of a \<open>select\<close> in \<open>sendEvent\<close> are ready the runtime takes one at random, and
  \<open>picks s 0\<close> says whether the next such choice is the send, \<open>picks s 1\<close> the one
  after, and so on. Every sequence of choices is some \<open>picks\<close>.
\<close>

record Session =
  ctx_done :: bool
  events :: "AgentEvent chan"
  input :: "string chan"
  messages :: "message list"
  closed :: bool
  totalUsage :: Usage
  loopCount :: int
  picks :: "nat \<Rightarrow> bool"

definition NewSession :: "('v, 'w) Agent \<Rightarrow> bool \<Rightarrow> (nat \<Rightarrow> bool) \<Rightarrow> Session" where
  "NewSession a parent_done runtime =
     \<lparr>ctx_done = parent_done,
      events = \<lparr>sent = [], is_closed = False\<rparr>,
      input = \<lparr>sent = [], is_closed = False\<rparr>,
      messages = [RoleContent ''system'' (SystemPrompt (config a))],
      closed = False, totalUsage = zeroUsage, loopCount = 0, picks = runtime\<rparr>"

text \<open>
  \<open>select { case s.events <- event: ; case <-s.ctx.Done(): }\<close>. With a live context
  only the send can be taken, and the event is sent. With a cancelled context both cases
  are ready and the runtime picks: the event is sent, or it is dropped; the choice is
  used up.

  Two things a second thread brings about are no branch of this function, which is the
  \<open>select\<close> as a turn meets it that runs alone. The send waits while the buffer of ten
  is full: \<open>sent\<close> is the sequence of the events the send case has taken, their receiver
  takes them as they come. And a send on a closed channel panics: the channel is closed
  by \<open>Close\<close> only, \<open>Send\<close> launches no turn on a closed session, and a turn leaves the
  channel as it found it (\<open>Send_events_open\<close> below), so that this takes a \<open>Close\<close>
  that overtakes a running turn.
\<close>

definition sendEvent :: "Session \<Rightarrow> AgentEvent \<Rightarrow> Session" where
  "sendEvent s event =
     (if ctx_done s
      then
        (let s' = s\<lparr>picks := (\<lambda>n. picks s (Suc n))\<rparr>
         in if picks s 0
            then s'\<lparr>events := (events s)\<lparr>sent := sent (events s) @ [event]\<rparr>\<rparr>
            else s')
      else s\<lparr>events := (events s)\<lparr>sent := sent (events s) @ [event]\<rparr>\<rparr>)"

text \<open>
  The synchronous part of \<open>Send\<close>: the check and the append. On \<open>Inr s'\<close> the source
  goes on with \<open>go s.runTurn()\<close> on \<open>s'\<close> and returns \<open>nil\<close>.
\<close>

definition Send :: "Session \<Rightarrow> string \<Rightarrow> error + Session" where
  "Send s message =
     (if closed s then Inl SessionClosed
      else Inr (s\<lparr>messages := messages s @ [RoleContent ''user'' message]\<rparr>))"

datatype 'a blocking = Blocks | Returns 'a

text \<open>
  \<open>SendInput\<close>: the unbuffered send goes through when a receiver is waiting; when the
  context is cancelled as well, \<open>prefer_send\<close> is the choice Go makes between the two
  ready cases. With neither, the call waits.
\<close>

definition SendInput :: "Session \<Rightarrow> string \<Rightarrow> bool \<Rightarrow> bool \<Rightarrow> (error option \<times> Session) blocking" where
  "SendInput s inp receiver prefer_send =
     (if closed s then Returns (Some SessionClosed, s)
      else if receiver \<and> (\<not> ctx_done s \<or> prefer_send)
      then Returns (None, s\<lparr>input := (input s)\<lparr>sent := sent (input s) @ [inp]\<rparr>\<rparr>)
      else if ctx_done s then Returns (Some ContextCancelled, s)
      else Blocks)"

definition Close :: "Session \<Rightarrow> error + Session" where
  "Close s =
     (if closed s then Inr s
      else
        (let s = s\<lparr>closed := True\<rparr>;
             s = s\<lparr>ctx_done := True\<rparr>
         in case close_chan (events s) of
              Inl p \<Rightarrow> Inl p
            | Inr ev \<Rightarrow>
                (case close_chan (input s) of
                   Inl p \<Rightarrow> Inl p
                 | Inr inp \<Rightarrow> Inr (s\<lparr>events := ev, input := inp\<rparr>))))"

definition GetHistory :: "Session \<Rightarrow> message list" where
  "GetHistory s = messages s"

definition Events :: "Session \<Rightarrow> AgentEvent list" where
  "Events s = sent (events s)"

text \<open>The inner loop of \<open>runTurn\<close>: as in \<open>Run\<close>, with the two events around each call.\<close>

fun turnToolCalls ::
  "('v \<Rightarrow> string + string) \<Rightarrow> ('v, 'w) Agent \<Rightarrow> apiToolCall list \<Rightarrow> Session \<Rightarrow> message list \<Rightarrow> 'w
     \<Rightarrow> error option \<times> Session \<times> message list \<times> 'w" where
  "turnToolCalls marshal a [] s msgs w = (None, s, msgs, w)"
| "turnToolCalls marshal a (toolCall # rest) s msgs w =
     (let s = sendEvent s \<lparr>AgentEvent.Type = EventToolCall,
                           AgentEvent.Content = apiFunctionCall.Name (Function toolCall),
                           Data = Some (Arguments (Function toolCall)),
                           Iteration = loopCount s\<rparr>
      in case executeTool a (apiFunctionCall.Name (Function toolCall)) (Arguments (Function toolCall)) w of
           (r, w') \<Rightarrow>
             (case toolContent marshal r of
                Inl err \<Rightarrow>
                  (Some (EncodeToolResult err),
                   sendEvent s \<lparr>AgentEvent.Type = EventError,
                                AgentEvent.Content = error_string (EncodeToolResult err),
                                Data = None, Iteration = loopCount s\<rparr>,
                   msgs, w')
              | Inr content \<Rightarrow>
                  turnToolCalls marshal a rest
                    (sendEvent s \<lparr>AgentEvent.Type = EventToolResult,
                                  AgentEvent.Content = content,
                                  Data = Some (apiFunctionCall.Name (Function toolCall)),
                                  Iteration = loopCount s\<rparr>)
                    (msgs @ [ToolResponse content (apiToolCall.ID toolCall)]) w'))"

record 'w turn_state =
  t_session :: Session
  t_messages :: "message list"
  t_reason :: string
  turnLoopCount :: int
  t_lastResponse :: "apiResponse option"
  t_env :: "'w env"

text \<open>
  One pass through the body of \<open>for reason != "stop"\<close> in \<open>runTurn\<close>. \<open>Abort err\<close>
  is a \<open>return\<close> from inside the loop, after the error event has been sent, or the
  panic of \<open>resp.Choices[0]\<close>.
\<close>

definition turn_body ::
  "('v \<Rightarrow> string + string) \<Rightarrow> ('v, 'w) Agent \<Rightarrow> 'w turn_state \<Rightarrow> 'w turn_state step" where
  "turn_body marshal a st =
     (let st = st\<lparr>turnLoopCount := turnLoopCount st + 1\<rparr>;
          s = (t_session st)\<lparr>loopCount := loopCount (t_session st) + 1\<rparr>
      in
      if loopCount s > MaxLoops (config a)
      then Abort (IterationLimitExceeded (MaxLoops (config a)))
             (st\<lparr>t_session :=
                   sendEvent s \<lparr>AgentEvent.Type = EventError,
                                AgentEvent.Content = error_string (IterationLimitExceeded (MaxLoops (config a))),
                                Data = None, Iteration = loopCount s\<rparr>\<rparr>)
      else
        (let s = sendEvent s \<lparr>AgentEvent.Type = EventIterationStart,
                              AgentEvent.Content = ''Starting iteration '' @ show_int (loopCount s),
                              Data = None, Iteration = loopCount s\<rparr>
         in case callAPI a (t_messages st) (t_env st) of
              (Inl err, e) \<Rightarrow>
                Abort (APICallError err)
                  (st\<lparr>t_session :=
                        sendEvent s \<lparr>AgentEvent.Type = EventError,
                                     AgentEvent.Content = error_string (APICallError err),
                                     Data = None, Iteration = loopCount s\<rparr>,
                      t_env := e\<rparr>)
            | (Inr resp, e) \<Rightarrow>
                (let st = st\<lparr>t_session := s, t_env := e, t_lastResponse := Some resp\<rparr> in
                 case Choices resp of
                   [] \<Rightarrow> Abort PanicIndexOutOfRange st
                 | choice # _ \<Rightarrow>
                     (let s = s\<lparr>totalUsage := addUsage (totalUsage s) (apiResponse.Usage resp)\<rparr>;
                          st = st\<lparr>t_session := s, t_reason := apiChoice.FinishReason choice\<rparr>
                      in
                      if t_reason st = ''tool_calls''
                      then
                        (case turnToolCalls marshal a (ToolCalls (Message choice)) s
                                (t_messages st @ [AssistantToolCalls (ToolCalls (Message choice))])
                                (world (t_env st)) of
                           (Some err, s, msgs, w) \<Rightarrow>
                             Abort err (st\<lparr>t_session := s, t_messages := msgs,
                                           t_env := (t_env st)\<lparr>world := w\<rparr>\<rparr>)
                         | (None, s, msgs, w) \<Rightarrow>
                             Next (st\<lparr>t_session := s, t_messages := msgs,
                                      t_env := (t_env st)\<lparr>world := w\<rparr>\<rparr>))
                      else Next st))))"

function turn_loop ::
  "('v \<Rightarrow> string + string) \<Rightarrow> ('v, 'w) Agent \<Rightarrow> 'w turn_state \<Rightarrow> error option \<times> 'w turn_state" where
  "turn_loop marshal a st =
     (if t_reason st = ''stop'' then (None, st)
      else case turn_body marshal a st of
             Next st' \<Rightarrow> turn_loop marshal a st'
           | Abort err st' \<Rightarrow> (Some err, st'))"
  by pat_completeness auto
termination
proof (relation "measure (\<lambda>(marshal, a, st). nat (MaxLoops (config a) - loopCount (t_session st)))")
  show "wf (measure (\<lambda>(marshal, a, st). nat (MaxLoops (config a) - loopCount (t_session st))))"
    by simp
next
  fix marshal :: "'v \<Rightarrow> string + string" and a :: "('v, 'w) Agent"
    and st st' :: "'w turn_state"
  have ev: "loopCount (sendEvent s ev) = loopCount s" for s ev
    by (simp add: sendEvent_def Let_def)
  have tools: "loopCount s' = loopCount s"
    if "turnToolCalls marshal a tcs s msgs w = (r, s', msgs', w')"
    for tcs s msgs w r s' msgs' w'
    using that
  proof (induction tcs arbitrary: s msgs w)
    case Nil
    then show ?case by simp
  next
    case (Cons tc tcs)
    obtain r0 w0 where ex:
      "executeTool a (apiFunctionCall.Name (Function tc)) (Arguments (Function tc)) w = (r0, w0)"
      by (cases "executeTool a (apiFunctionCall.Name (Function tc)) (Arguments (Function tc)) w")
    show ?case
    proof (cases "toolContent marshal r0")
      case (Inl err)
      with ex Cons.prems show ?thesis by (auto simp: Let_def ev)
    next
      case (Inr content)
      with ex Cons.prems obtain s1 where
        "turnToolCalls marshal a tcs s1 (msgs @ [ToolResponse content (apiToolCall.ID tc)]) w0
           = (r, s', msgs', w')" and "loopCount s1 = loopCount s"
        by (simp add: Let_def ev)
      with Cons.IH show ?thesis by metis
    qed
  qed
  assume "turn_body marshal a st = Next st'"
  then have "loopCount (t_session st') = loopCount (t_session st) + 1
      \<and> loopCount (t_session st') \<le> MaxLoops (config a)"
    by (auto simp: turn_body_def Let_def ev dest!: tools
          split: if_splits prod.splits sum.splits list.splits option.splits)
  then show "((marshal, a, st'), (marshal, a, st))
          \<in> measure (\<lambda>(marshal, a, st). nat (MaxLoops (config a) - loopCount (t_session st)))"
    by simp
qed

declare turn_loop.simps [simp del]

definition turn_init :: "Session \<Rightarrow> 'w env \<Rightarrow> 'w turn_state" where
  "turn_init s e =
     \<lparr>t_session = s, t_messages = messages s, t_reason = [], turnLoopCount = 0,
      t_lastResponse = None, t_env = e\<rparr>"

text \<open>
  The code of \<open>runTurn\<close> after the loop, or the \<open>return\<close> inside it. The result
  says how the turn ended: \<open>None\<close> after the \<open>turn_complete\<close> event, otherwise the
  error whose event was the last one sent (or the panic). Only a turn that completes
  writes its conversation back to the session.
\<close>

definition turn_result :: "error option \<times> 'w turn_state \<Rightarrow> error option \<times> Session \<times> 'w env" where
  "turn_result out =
     (case out of
        (Some err, st) \<Rightarrow> (Some err, t_session st, t_env st)
      | (None, st) \<Rightarrow>
          (let s = t_session st;
               noResponse =
                 (Some NoResponseFromAPI,
                  sendEvent s \<lparr>AgentEvent.Type = EventError,
                               AgentEvent.Content = error_string NoResponseFromAPI,
                               Data = None, Iteration = loopCount s\<rparr>,
                  t_env st)
           in case t_lastResponse st of
                None \<Rightarrow> noResponse
              | Some lastResponse \<Rightarrow>
                  (case Choices lastResponse of
                     [] \<Rightarrow> noResponse
                   | choice # _ \<Rightarrow>
                       (let s = s\<lparr>messages := t_messages st
                                     @ [RoleContent ''assistant'' (apiMessage.Content (Message choice))]\<rparr>
                        in (None,
                            sendEvent s \<lparr>AgentEvent.Type = EventTurnComplete,
                                         AgentEvent.Content = apiMessage.Content (Message choice),
                                         Data = None, Iteration = loopCount s\<rparr>,
                            t_env st)))))"

definition runTurn ::
  "('v \<Rightarrow> string + string) \<Rightarrow> ('v, 'w) Agent \<Rightarrow> Session \<Rightarrow> 'w env \<Rightarrow> error option \<times> Session \<times> 'w env" where
  "runTurn marshal a s e = turn_result (turn_loop marshal a (turn_init s e))"

text \<open>\<open>Send\<close> and the turn it launches, run to its end.\<close>

definition SendTurn ::
  "('v \<Rightarrow> string + string) \<Rightarrow> ('v, 'w) Agent \<Rightarrow> Session \<Rightarrow> string \<Rightarrow> 'w env \<Rightarrow> error option \<times> Session \<times> 'w env" where
  "SendTurn marshal a s message e =
     (case Send s message of
        Inl err \<Rightarrow> (Some err, s, e)
      | Inr s' \<Rightarrow> runTurn marshal a s' e)"

section \<open>Notions the properties are stated with\<close>

text \<open>The calls made to the endpoint between two environments.\<close>

definition new_calls :: "'w env \<Rightarrow> 'w env \<Rightarrow> (message list \<times> (string + apiResponse)) list" where
  "new_calls e e' = drop (length (calls e)) (calls e')"

text \<open>The \<open>tool_call_id\<close> of a tool message; the other messages have none.\<close>

definition tool_call_id :: "message \<Rightarrow> string option" where
  "tool_call_id m = (case m of ToolResponse content i \<Rightarrow> Some i | _ \<Rightarrow> None)"

text \<open>
  An answer of the endpoint that keeps the loop going: a response whose first choice
  carries an indicator other than \<open>stop\<close>.
\<close>

definition nonstop :: "string + apiResponse \<Rightarrow> bool" where
  "nonstop r =
     (case r of
        Inl err \<Rightarrow> False
      | Inr resp \<Rightarrow>
          (case Choices resp of
             [] \<Rightarrow> False
           | choice # _ \<Rightarrow> apiChoice.FinishReason choice \<noteq> ''stop''))"

text \<open>The token counters of the responses among a list of calls, in order.\<close>

fun usages :: "(message list \<times> (string + apiResponse)) list \<Rightarrow> Usage list" where
  "usages [] = []"
| "usages ((msgs, Inl err) # cs) = usages cs"
| "usages ((msgs, Inr resp) # cs) = apiResponse.Usage resp # usages cs"

text \<open>
  The sessions that \<open>NewSession\<close> and the operations on a session produce: the two
  channels are closed exactly when the flag is set, and then the context is cancelled.
\<close>

definition session_ok :: "Session \<Rightarrow> bool" where
  "session_ok s =
     ((is_closed (events s) = closed s) \<and> (is_closed (input s) = closed s)
      \<and> (closed s \<longrightarrow> ctx_done s))"

text \<open>
  The variables of \<open>runTurn\<close>'s loop, read as the variables of \<open>Run\<close>'s loop: the
  session's counter and totals take the place of the local ones.
\<close>

definition as_run :: "'w turn_state \<Rightarrow> 'w run_state" where
  "as_run st =
     \<lparr>r_messages = t_messages st, r_reason = t_reason st,
      r_loopCount = loopCount (t_session st), r_lastResponse = t_lastResponse st,
      r_totalUsage = totalUsage (t_session st), r_env = t_env st\<rparr>"

text \<open>The events of \<open>runTurn\<close>, as it builds them.\<close>

definition errorEvent :: "error \<Rightarrow> int \<Rightarrow> AgentEvent" where
  "errorEvent err i =
     \<lparr>AgentEvent.Type = EventError, AgentEvent.Content = error_string err, Data = None, Iteration = i\<rparr>"

definition startEvent :: "int \<Rightarrow> AgentEvent" where
  "startEvent i =
     \<lparr>AgentEvent.Type = EventIterationStart,
      AgentEvent.Content = ''Starting iteration '' @ show_int i, Data = None, Iteration = i\<rparr>"


definition toolResultEvent :: "string \<Rightarrow> apiToolCall \<Rightarrow> int \<Rightarrow> AgentEvent" where
  "toolResultEvent content toolCall i =
     \<lparr>AgentEvent.Type = EventToolResult, AgentEvent.Content = content,
      Data = Some (apiFunctionCall.Name (Function toolCall)), Iteration = i\<rparr>"

definition completeEvent :: "string \<Rightarrow> int \<Rightarrow> AgentEvent" where
  "completeEvent content i =
     \<lparr>AgentEvent.Type = EventTurnComplete, AgentEvent.Content = content, Data = None, Iteration = i\<rparr>"

section \<open>A test double for the endpoint, and an echo tool\<close>

text \<open>
  The scripted endpoint answers its \<open>n\<close>-th call with the \<open>n\<close>-th entry of a list and
  fails once the list is used up; its world is the number of calls answered so far.
\<close>

definition scripted :: "(string + apiResponse) list \<Rightarrow> message list \<Rightarrow> nat \<Rightarrow> (string + apiResponse) \<times> nat" where
  "scripted rs msgs n = ((if n < length rs then rs ! n else Inl ''EOF''), Suc n)"

definition echoTool :: "(string, nat) Tool" where
  "echoTool = \<lparr>Tool.Name = ''echo'', Description = ''returns its input'',
               Handler = (\<lambda>args w. (Inr args, w))\<rparr>"

text \<open>A handler that fails, and one whose result \<open>json.Marshal\<close> rejects.\<close>

definition failTool :: "(string, nat) Tool" where
  "failTool = \<lparr>Tool.Name = ''fail'', Description = ''always fails'',
               Handler = (\<lambda>args w. (Inl ''boom'', w))\<rparr>"

definition chanTool :: "(string, nat) Tool" where
  "chanTool = \<lparr>Tool.Name = ''chan'', Description = ''returns a channel'',
               Handler = (\<lambda>args w. (Inr ''chan int'', w))\<rparr>"

text \<open>
  An encoder for the string values of these tools: it puts the string between double
  quotes, and rejects the one value that stands for a Go channel.
\<close>

definition quoted :: "string \<Rightarrow> string + string" where
  "quoted v = (if v = ''chan int'' then Inl ''json: unsupported type: chan int''
               else Inr (CHR 0x22 # v @ [CHR 0x22]))"

definition reply :: "string \<Rightarrow> string \<Rightarrow> apiToolCall list \<Rightarrow> nat \<Rightarrow> apiResponse" where
  "reply fin txt tcs n =
     \<lparr>apiResponse.ID = ''r'',
      Choices = [\<lparr>Index = 0,
                  Message = \<lparr>Role = ''assistant'', apiMessage.Content = txt,
                             ToolCalls = tcs, ToolCallID = []\<rparr>,
                  apiChoice.FinishReason = fin\<rparr>],
      apiResponse.Usage = \<lparr>PromptTokens = of_nat n, CompletionTokens = 1, TotalTokens = of_nat n + 1\<rparr>\<rparr>"

definition request :: "string \<Rightarrow> string \<Rightarrow> string \<Rightarrow> apiToolCall" where
  "request i n args =
     \<lparr>apiToolCall.ID = i, Type = ''function'',
      Function = \<lparr>apiFunctionCall.Name = n, Arguments = args\<rparr>\<rparr>"

text \<open>An agent with the given ceiling and tools, in front of a scripted endpoint.\<close>

definition testAgent :: "int \<Rightarrow> (string, nat) Tool list \<Rightarrow> (string + apiResponse) list \<Rightarrow> (string, nat) Agent" where
  "testAgent k ts rs =
     foldl RegisterTool
       \<lparr>config = \<lparr>APIKey = ''key'', APIURL = ''url'', Model = ''model'',
                   SystemPrompt = ''sys'', MaxLoops = k\<rparr>,
        tools = Map.empty, client = scripted rs\<rparr> ts"

text \<open>A runtime that takes the send whenever it has the choice, and one that never does.\<close>

definition pickSend :: "nat \<Rightarrow> bool" where
  "pickSend n = True"

definition pickDone :: "nat \<Rightarrow> bool" where
  "pickDone n = False"

definition env0 :: "nat env" where
  "env0 = \<lparr>world = 0, calls = []\<rparr>"

text \<open>Scripts for the endpoint.\<close>

definition scriptNonstop :: "(string + apiResponse) list" where
  "scriptNonstop =
     [Inr (reply ''length'' ''partial'' [] 5),
      Inr (reply ''tool_calls'' [] [request ''c1'' ''echo'' ''x''] 7),
      Inr (reply ''stop'' ''unused'' [] 9)]"

definition scriptChan :: "(string + apiResponse) list" where
  "scriptChan =
     [Inr (reply ''tool_calls'' [] [request ''c1'' ''chan'' ''{}''] 5),
      Inr (reply ''length'' ''partial'' [] 7)]"

definition scriptMixed :: "(string + apiResponse) list" where
  "scriptMixed =
     [Inr (reply ''tool_calls'' [] [request ''c1'' ''echo'' ''a''] 10),
      Inr (reply ''length'' ''cut'' [] 20),
      Inr (reply ''tool_calls'' [] [request ''c3'' ''fail'' ''c'', request ''c4'' ''nope'' ''d''] 30),
      Inr (reply ''stop'' ''done'' [] 40)]"

definition scriptTools :: "(string + apiResponse) list" where
  "scriptTools =
     [Inr (reply ''tool_calls'' [] [request ''c1'' ''echo'' ''a'', request ''c2'' ''fail'' ''b'',
                                    request ''c3'' ''nope'' ''c''] 10),
      Inr (reply ''stop'' ''done'' [] 20)]"

definition scriptUnknown :: "(string + apiResponse) list" where
  "scriptUnknown =
     [Inr (reply ''tool_calls'' [] [request ''c1'' ''nope'' ''x''] 5),
      Inr (reply ''stop'' ''done'' [] 7)]"

text \<open>
  Two answers whose prompt counters are the largest \<open>int\<close> of 64 bits and 1.
\<close>

definition scriptOverflow :: "(string + apiResponse) list" where
  "scriptOverflow =
     [Inr ((reply ''length'' ''partial'' [] 0)
             \<lparr>apiResponse.Usage := \<lparr>PromptTokens = 9223372036854775807, CompletionTokens = 0,
                                     TotalTokens = 9223372036854775807\<rparr>\<rparr>),
      Inr ((reply ''stop'' ''done'' [] 0)
             \<lparr>apiResponse.Usage := \<lparr>PromptTokens = 1, CompletionTokens = 0, TotalTokens = 1\<rparr>\<rparr>)]"

text \<open>An unknown tool first, then a tool whose result cannot be encoded.\<close>

definition scriptUnknownChan :: "(string + apiResponse) list" where
  "scriptUnknownChan =
     [Inr (reply ''tool_calls'' [] [request ''c1'' ''nope'' ''x'', request ''c2'' ''chan'' ''{}''] 5),
      Inr (reply ''stop'' ''done'' [] 7)]"


text \<open>A response without choices, and one that was cut off.\<close>

definition scriptNoChoice :: "(string + apiResponse) list" where
  "scriptNoChoice = [Inr \<lparr>apiResponse.ID = ''r'', Choices = [], apiResponse.Usage = zeroUsage\<rparr>]"

definition scriptLength :: "(string + apiResponse) list" where
  "scriptLength = [Inr (reply ''length'' ''cut'' [] 5), Inr (reply ''stop'' ''done'' [] 7)]"




definition scriptEcho :: "(string + apiResponse) list" where
  "scriptEcho =
     [Inr (reply ''tool_calls'' [] [request ''c1'' ''echo'' ''a''] 10),
      Inr (reply ''tool_calls'' [] [request ''c2'' ''echo'' ''b''] 20),
      Inr (reply ''tool_calls'' [] [request ''c3'' ''echo'' ''c''] 30),
      Inr (reply ''stop'' ''done'' [] 40)]"

section \<open>The loop of Run, pass by pass\<close>

subsection \<open>callAPI\<close>

lemma callAPI_calls:
  "callAPI a msgs e = (r, e') \<Longrightarrow> calls e' = calls e @ [(msgs, r)]"
  by (auto simp: callAPI_def split: prod.splits)

lemma callAPI_world:
  "callAPI a msgs e = (r, e') \<Longrightarrow> client a msgs (world e) = (r, world e')"
  by (auto simp: callAPI_def split: prod.splits)

subsection \<open>One pass of the body of Run\<close>

lemma Run_body_limit:
  "MaxLoops (config a) < r_loopCount st + 1 \<Longrightarrow>
     Run_body marshal a st =
       Abort (IterationLimitExceeded (MaxLoops (config a))) (st\<lparr>r_loopCount := r_loopCount st + 1\<rparr>)"
  by (simp add: Run_body_def Let_def)

lemma Run_body_api_error:
  "r_loopCount st + 1 \<le> MaxLoops (config a) \<Longrightarrow>
   callAPI a (r_messages st) (r_env st) = (Inl err, e) \<Longrightarrow>
     Run_body marshal a st = Abort (APICallError err) (st\<lparr>r_loopCount := r_loopCount st + 1, r_env := e\<rparr>)"
  by (simp add: Run_body_def Let_def)

lemma Run_body_no_choice:
  "r_loopCount st + 1 \<le> MaxLoops (config a) \<Longrightarrow>
   callAPI a (r_messages st) (r_env st) = (Inr resp, e) \<Longrightarrow> Choices resp = [] \<Longrightarrow>
     Run_body marshal a st =
       Abort PanicIndexOutOfRange
         (st\<lparr>r_loopCount := r_loopCount st + 1, r_env := e, r_lastResponse := Some resp\<rparr>)"
  by (simp add: Run_body_def Let_def)

lemma Run_body_other:
  "r_loopCount st + 1 \<le> MaxLoops (config a) \<Longrightarrow>
   callAPI a (r_messages st) (r_env st) = (Inr resp, e) \<Longrightarrow> Choices resp = choice # rest \<Longrightarrow>
   apiChoice.FinishReason choice \<noteq> ''tool_calls'' \<Longrightarrow>
     Run_body marshal a st =
       Next (st\<lparr>r_loopCount := r_loopCount st + 1, r_env := e, r_lastResponse := Some resp,
                r_reason := apiChoice.FinishReason choice,
                r_totalUsage := addUsage (r_totalUsage st) (apiResponse.Usage resp)\<rparr>)"
  by (simp add: Run_body_def Let_def)

lemma Run_body_tools:
  "r_loopCount st + 1 \<le> MaxLoops (config a) \<Longrightarrow>
   callAPI a (r_messages st) (r_env st) = (Inr resp, e) \<Longrightarrow> Choices resp = choice # rest \<Longrightarrow>
   apiChoice.FinishReason choice = ''tool_calls'' \<Longrightarrow>
   runToolCalls marshal a (ToolCalls (Message choice))
      (r_messages st @ [AssistantToolCalls (ToolCalls (Message choice))]) (world e) = (out, msgs, w) \<Longrightarrow>
     Run_body marshal a st =
       (let st' = st\<lparr>r_loopCount := r_loopCount st + 1, r_env := e\<lparr>world := w\<rparr>,
                      r_lastResponse := Some resp, r_reason := ''tool_calls'',
                      r_totalUsage := addUsage (r_totalUsage st) (apiResponse.Usage resp),
                      r_messages := msgs\<rparr>
        in case out of None \<Rightarrow> Next st' | Some err \<Rightarrow> Abort err st')"
  by (simp add: Run_body_def Let_def split: option.splits)

text \<open>What a pass that goes on to the next one has done.\<close>

lemma Run_body_NextE:
  assumes "Run_body marshal a st = Next st'"
  obtains resp e choice rest where
    "r_loopCount st + 1 \<le> MaxLoops (config a)"
    "callAPI a (r_messages st) (r_env st) = (Inr resp, e)"
    "Choices resp = choice # rest"
    "r_loopCount st' = r_loopCount st + 1"
    "r_reason st' = apiChoice.FinishReason choice"
    "r_lastResponse st' = Some resp"
    "r_totalUsage st' = addUsage (r_totalUsage st) (apiResponse.Usage resp)"
    "calls (r_env st') = calls (r_env st) @ [(r_messages st, Inr resp)]"
proof -
  from assms have le: "r_loopCount st + 1 \<le> MaxLoops (config a)"
    by (simp add: Run_body_def Let_def split: if_splits)
  obtain r e where api: "callAPI a (r_messages st) (r_env st) = (r, e)"
    by (cases "callAPI a (r_messages st) (r_env st)")
  from assms le api obtain resp where r: "r = Inr resp"
    by (cases r) (simp_all add: Run_body_api_error)
  from assms le api r obtain choice rest where ch: "Choices resp = choice # rest"
    by (cases "Choices resp") (simp_all add: Run_body_no_choice)
  from callAPI_calls [OF api] r
  have c: "calls e = calls (r_env st) @ [(r_messages st, Inr resp)]" by simp
  show ?thesis
  proof (cases "apiChoice.FinishReason choice = ''tool_calls''")
    case False
    from Run_body_other [OF le api [unfolded r] ch False] assms
    have "st' = st\<lparr>r_loopCount := r_loopCount st + 1, r_env := e, r_lastResponse := Some resp,
                r_reason := apiChoice.FinishReason choice,
                r_totalUsage := addUsage (r_totalUsage st) (apiResponse.Usage resp)\<rparr>"
      by simp
    with that [OF le api [unfolded r] ch] c show ?thesis by simp
  next
    case True
    obtain out msgs w where t: "runToolCalls marshal a (ToolCalls (Message choice))
      (r_messages st @ [AssistantToolCalls (ToolCalls (Message choice))]) (world e) = (out, msgs, w)"
      by (metis prod_cases3)
    from Run_body_tools [OF le api [unfolded r] ch True t] assms
    have "st' = st\<lparr>r_loopCount := r_loopCount st + 1, r_env := e\<lparr>world := w\<rparr>,
                      r_lastResponse := Some resp, r_reason := ''tool_calls'',
                      r_totalUsage := addUsage (r_totalUsage st) (apiResponse.Usage resp),
                      r_messages := msgs\<rparr>"
      by (cases out) (simp_all add: Let_def)
    with that [OF le api [unfolded r] ch] c True show ?thesis by simp
  qed
qed

lemma runToolCalls_error:
  "runToolCalls marshal a tcs msgs w = (Some err, msgs', w') \<Longrightarrow> \<exists>m. err = EncodeToolResult m"
  by (induction tcs arbitrary: msgs w) (auto split: prod.splits sum.splits)

text \<open>What a pass that leaves the loop has done: the four ways out.\<close>

lemma Run_body_AbortE:
  assumes "Run_body marshal a st = Abort err st'"
  obtains
    (limit) "err = IterationLimitExceeded (MaxLoops (config a))"
      "MaxLoops (config a) < r_loopCount st + 1"
      "st' = st\<lparr>r_loopCount := r_loopCount st + 1\<rparr>"
  | (api) m e where "err = APICallError m"
      "r_loopCount st + 1 \<le> MaxLoops (config a)"
      "callAPI a (r_messages st) (r_env st) = (Inl m, e)"
      "st' = st\<lparr>r_loopCount := r_loopCount st + 1, r_env := e\<rparr>"
  | (panic) resp e where "err = PanicIndexOutOfRange"
      "r_loopCount st + 1 \<le> MaxLoops (config a)"
      "callAPI a (r_messages st) (r_env st) = (Inr resp, e)" "Choices resp = []"
      "st' = st\<lparr>r_loopCount := r_loopCount st + 1, r_env := e, r_lastResponse := Some resp\<rparr>"
  | (encode) m resp e choice rest msgs w where "err = EncodeToolResult m"
      "r_loopCount st + 1 \<le> MaxLoops (config a)"
      "callAPI a (r_messages st) (r_env st) = (Inr resp, e)" "Choices resp = choice # rest"
      "apiChoice.FinishReason choice = ''tool_calls''"
      "runToolCalls marshal a (ToolCalls (Message choice))
         (r_messages st @ [AssistantToolCalls (ToolCalls (Message choice))]) (world e)
         = (Some (EncodeToolResult m), msgs, w)"
      "st' = st\<lparr>r_loopCount := r_loopCount st + 1, r_env := e\<lparr>world := w\<rparr>,
                      r_lastResponse := Some resp, r_reason := ''tool_calls'',
                      r_totalUsage := addUsage (r_totalUsage st) (apiResponse.Usage resp),
                      r_messages := msgs\<rparr>"
proof (cases "r_loopCount st + 1 \<le> MaxLoops (config a)")
  case False
  with assms limit show ?thesis by (auto simp: Run_body_limit)
next
  case le: True
  obtain r e where c: "callAPI a (r_messages st) (r_env st) = (r, e)"
    by (cases "callAPI a (r_messages st) (r_env st)")
  show ?thesis
  proof (cases r)
    case (Inl m)
    with assms le c api show ?thesis by (auto simp: Run_body_api_error)
  next
    case (Inr resp)
    note c = c [unfolded Inr]
    show ?thesis
    proof (cases "Choices resp")
      case Nil
      with assms le c panic show ?thesis by (auto simp: Run_body_no_choice)
    next
      case (Cons choice rest)
      show ?thesis
      proof (cases "apiChoice.FinishReason choice = ''tool_calls''")
        case False
        with assms le c Cons show ?thesis by (simp add: Run_body_other)
      next
        case True
        obtain out msgs w where t: "runToolCalls marshal a (ToolCalls (Message choice))
          (r_messages st @ [AssistantToolCalls (ToolCalls (Message choice))]) (world e) = (out, msgs, w)"
          by (metis prod_cases3)
        from Run_body_tools [OF le c Cons True t] assms obtain err' where
          o: "out = Some err'" and "err' = err" and
          st': "st' = st\<lparr>r_loopCount := r_loopCount st + 1, r_env := e\<lparr>world := w\<rparr>,
                      r_lastResponse := Some resp, r_reason := ''tool_calls'',
                      r_totalUsage := addUsage (r_totalUsage st) (apiResponse.Usage resp),
                      r_messages := msgs\<rparr>"
          by (cases out) (simp_all add: Let_def)
        from runToolCalls_error [OF t [unfolded o]] \<open>err' = err\<close> obtain m where
          "err = EncodeToolResult m" by auto
        with encode [OF this le c Cons True _ st'] t o \<open>err' = err\<close> show ?thesis by simp
      qed
    qed
  qed
qed

subsection \<open>The loop of Run\<close>

lemma Run_loop_stop: "r_reason st = ''stop'' \<Longrightarrow> Run_loop marshal a st = (None, st)"
  by (simp add: Run_loop.simps)

lemma Run_loop_Next:
  "r_reason st \<noteq> ''stop'' \<Longrightarrow> Run_body marshal a st = Next st' \<Longrightarrow>
     Run_loop marshal a st = Run_loop marshal a st'"
  by (subst Run_loop.simps) simp

lemma Run_loop_Abort:
  "r_reason st \<noteq> ''stop'' \<Longrightarrow> Run_body marshal a st = Abort err st' \<Longrightarrow>
     Run_loop marshal a st = (Some err, st')"
  by (subst Run_loop.simps) simp

text \<open>Induction over the passes of a run of the loop.\<close>

lemma Run_loop_induct [consumes 1, case_names stop abort step]:
  assumes run: "Run_loop marshal a st = (out, st')"
    and stop: "\<And>st. r_reason st = ''stop'' \<Longrightarrow> P st None st"
    and abort: "\<And>st err st1. r_reason st \<noteq> ''stop'' \<Longrightarrow> Run_body marshal a st = Abort err st1
                  \<Longrightarrow> P st (Some err) st1"
    and step: "\<And>st st1 out st'. r_reason st \<noteq> ''stop'' \<Longrightarrow> Run_body marshal a st = Next st1
                  \<Longrightarrow> Run_loop marshal a st1 = (out, st') \<Longrightarrow> P st1 out st' \<Longrightarrow> P st out st'"
  shows "P st out st'"
  using run stop abort step
proof (induction marshal a st rule: Run_loop.induct)
  case (1 marshal a st)
  note run = "1.prems"(1) and stop = "1.prems"(2) and abort = "1.prems"(3) and step = "1.prems"(4)
  show ?case
  proof (cases "r_reason st = ''stop''")
    case True
    with run stop show ?thesis by (simp add: Run_loop_stop)
  next
    case False
    show ?thesis
    proof (cases "Run_body marshal a st")
      case (Next st1)
      from run have r: "Run_loop marshal a st1 = (out, st')"
        by (simp add: Run_loop_Next [OF False Next])
      have "P st1 out st'"
        by (rule "1.IH" [OF False Next r]) (fact stop abort step)+
      with step [OF False Next r] show ?thesis .
    next
      case (Abort err st1)
      with run False abort [OF False Abort] show ?thesis
        by (simp add: Run_loop_Abort)
    qed
  qed
qed

lemma Run_loop_calls_grow:
  "Run_loop marshal a st = (out, st') \<Longrightarrow> \<exists>new. calls (r_env st') = calls (r_env st) @ new"
proof (induction rule: Run_loop_induct)
  case (stop st)
  then show ?case by simp
next
  case (abort st err st1)
  from abort(2) show ?case
    by (cases rule: Run_body_AbortE) (auto dest: callAPI_calls)
next
  case (step st st1 out st')
  from step(2) obtain resp where
    "calls (r_env st1) = calls (r_env st) @ [(r_messages st, Inr resp)]"
    by (rule Run_body_NextE)
  with step(4) show ?case by auto
qed

lemma Run_loop_calls:
  "Run_loop marshal a st = (out, st') \<Longrightarrow>
     calls (r_env st') = calls (r_env st) @ new_calls (r_env st) (r_env st')"
  by (drule Run_loop_calls_grow) (auto simp: new_calls_def)

lemma new_calls_append: "calls e' = calls e @ new \<Longrightarrow> new_calls e e' = new"
  by (simp add: new_calls_def)

lemma new_calls_step:
  "calls e1 = calls e @ [c] \<Longrightarrow> calls e' = calls e1 @ new \<Longrightarrow> new_calls e e' = c # new"
  by (simp add: new_calls_def)

text \<open>The loop is left normally only with the indicator \<open>stop\<close>.\<close>

lemma Run_loop_exit: "Run_loop marshal a st = (None, st') \<Longrightarrow> r_reason st' = ''stop''"
  by (induction st "None :: error option" st' rule: Run_loop_induct) simp_all

lemma Run_loop_lastResponse:
  assumes "Run_loop marshal a st = (None, st')" and "r_reason st \<noteq> ''stop''"
  shows "\<exists>resp choice rest. r_lastResponse st' = Some resp \<and> Choices resp = choice # rest
           \<and> apiChoice.FinishReason choice = ''stop''"
  using assms
proof (induction st "None :: error option" st' rule: Run_loop_induct)
  case (stop st)
  then show ?case by simp
next
  case (step st st1 st')
  show ?case
  proof (cases "r_reason st1 = ''stop''")
    case True
    with step(3) have "st' = st1" by (simp add: Run_loop_stop)
    with step(2) True show ?thesis by (auto elim!: Run_body_NextE)
  next
    case False
    with step(4) show ?thesis by simp
  qed
qed

text \<open>How many calls a run of the loop makes.\<close>

lemma Run_loop_count:
  assumes "Run_loop marshal a st = (out, st')"
  shows "(out = None \<longrightarrow>
            int (length (new_calls (r_env st) (r_env st'))) = r_loopCount st' - r_loopCount st
            \<and> (r_reason st \<noteq> ''stop'' \<longrightarrow> r_loopCount st' \<le> MaxLoops (config a)))
       \<and> (\<forall>k. out = Some (IterationLimitExceeded k) \<longrightarrow>
            k = MaxLoops (config a)
            \<and> (r_loopCount st \<le> MaxLoops (config a) \<longrightarrow>
                 int (length (new_calls (r_env st) (r_env st'))) = MaxLoops (config a) - r_loopCount st)
            \<and> (\<forall>c \<in> set (new_calls (r_env st) (r_env st')). nonstop (snd c)))"
  using assms
proof (induction rule: Run_loop_induct)
  case (stop st)
  then show ?case by (simp add: new_calls_def)
next
  case (abort st err st1)
  from abort(2) show ?case
    by (cases rule: Run_body_AbortE) (auto simp: new_calls_def dest: callAPI_calls)
next
  case (step st st1 out st')
  from step(2) obtain resp e choice rest where
    le: "r_loopCount st + 1 \<le> MaxLoops (config a)"
    and ch: "Choices resp = choice # rest"
    and lc: "r_loopCount st1 = r_loopCount st + 1"
    and rs: "r_reason st1 = apiChoice.FinishReason choice"
    and c1: "calls (r_env st1) = calls (r_env st) @ [(r_messages st, Inr resp)]"
    by (rule Run_body_NextE)
  from Run_loop_calls [OF step(3)] have
    c2: "calls (r_env st') = calls (r_env st1) @ new_calls (r_env st1) (r_env st')" .
  have n: "new_calls (r_env st) (r_env st')
             = (r_messages st, Inr resp) # new_calls (r_env st1) (r_env st')"
    by (rule new_calls_step [OF c1 c2])
  show ?case
  proof (intro conjI impI allI)
    assume o: "out = None"
    with step(4) lc show "int (length (new_calls (r_env st) (r_env st'))) = r_loopCount st' - r_loopCount st"
      by (simp add: n)
    show "r_loopCount st' \<le> MaxLoops (config a)"
    proof (cases "r_reason st1 = ''stop''")
      case True
      with step(3) have "st' = st1" by (simp add: Run_loop_stop)
      with lc le show ?thesis by simp
    next
      case False
      with step(4) o show ?thesis by simp
    qed
  next
    fix k assume o: "out = Some (IterationLimitExceeded k)"
    with step(4) show "k = MaxLoops (config a)" by simp
    from o step(4) lc le
    show "int (length (new_calls (r_env st) (r_env st'))) = MaxLoops (config a) - r_loopCount st"
      by (simp add: n)
    have "r_reason st1 \<noteq> ''stop''"
    proof
      assume "r_reason st1 = ''stop''"
      with step(3) o show False by (simp add: Run_loop_stop)
    qed
    with rs ch have "nonstop (Inr resp)" by (simp add: nonstop_def)
    with o step(4) show "\<forall>c \<in> set (new_calls (r_env st) (r_env st')). nonstop (snd c)"
      by (simp add: n)
  qed
qed

text \<open>A run of the loop in which every answer is a response that does not say \<open>stop\<close>.\<close>

lemma Run_loop_nonstop:
  assumes "Run_loop marshal a st = (out, st')"
    and "r_reason st \<noteq> ''stop''"
    and "\<forall>c \<in> set (new_calls (r_env st) (r_env st')). nonstop (snd c)"
  shows "out = Some (IterationLimitExceeded (MaxLoops (config a))) \<or> (\<exists>m. out = Some (EncodeToolResult m))"
  using assms
proof (induction rule: Run_loop_induct)
  case (stop st)
  then show ?case by simp
next
  case (abort st err st1)
  from abort(2) show ?case
  proof (cases rule: Run_body_AbortE)
    case (api m e)
    with abort(4) show ?thesis
      by (auto simp: new_calls_def nonstop_def dest!: callAPI_calls)
  next
    case (panic resp e)
    with abort(4) show ?thesis
      by (auto simp: new_calls_def nonstop_def dest!: callAPI_calls)
  qed simp_all
next
  case (step st st1 out st')
  from step(2) obtain resp e choice rest where
    ch: "Choices resp = choice # rest"
    and rs: "r_reason st1 = apiChoice.FinishReason choice"
    and c1: "calls (r_env st1) = calls (r_env st) @ [(r_messages st, Inr resp)]"
    by (rule Run_body_NextE)
  from Run_loop_calls [OF step(3)] have
    c2: "calls (r_env st') = calls (r_env st1) @ new_calls (r_env st1) (r_env st')" .
  have n: "new_calls (r_env st) (r_env st')
             = (r_messages st, Inr resp) # new_calls (r_env st1) (r_env st')"
    by (rule new_calls_step [OF c1 c2])
  from step(6) n ch rs have "r_reason st1 \<noteq> ''stop''" by (simp add: nonstop_def)
  moreover from step(6) n have "\<forall>c \<in> set (new_calls (r_env st1) (r_env st')). nonstop (snd c)"
    by simp
  ultimately show ?case by (rule step(4))
qed

lemma New_keeps_ceiling:
  "New cfg http = Inr a \<Longrightarrow> MaxLoops cfg \<noteq> 0 \<Longrightarrow> MaxLoops (config a) = MaxLoops cfg"
  by (auto simp: New_def split: if_splits)

lemma New_default_ceiling:
  "New cfg http = Inr a \<Longrightarrow> MaxLoops cfg = 0 \<Longrightarrow> MaxLoops (config a) = 20"
  by (auto simp: New_def split: if_splits)

text \<open>
  C1 (amended). Take a run of \<open>Run\<close> with a ceiling \<open>K \<ge> 0\<close>. If every answer the
  endpoint gives in the run is a response whose first choice carries an indicator other
  than \<open>stop\<close>, and the run is not cut short by a tool result that \<open>json.Marshal\<close>
  rejects, then \<open>Run\<close> fails with the iteration-limit error after exactly \<open>K\<close> calls
  of the endpoint, so before a call \<open>K + 1\<close>. Conversely a run that fails with that error
  names the ceiling, has made exactly \<open>K\<close> calls, and none of their answers said
  \<open>stop\<close>; and a run that returns a response has used at most \<open>K\<close> iterations, one
  call each.
\<close>

theorem Run_iteration_limit:
  assumes "Run marshal a prompt e = (res, e')" and "0 \<le> MaxLoops (config a)"
  shows "((\<forall>c \<in> set (new_calls e e'). nonstop (snd c)) \<and> (\<forall>m. res \<noteq> Inl (EncodeToolResult m))
            \<longrightarrow> res = Inl (IterationLimitExceeded (MaxLoops (config a)))
                \<and> int (length (new_calls e e')) = MaxLoops (config a))
       \<and> (\<forall>k. res = Inl (IterationLimitExceeded k)
            \<longrightarrow> k = MaxLoops (config a) \<and> int (length (new_calls e e')) = MaxLoops (config a)
                \<and> (\<forall>c \<in> set (new_calls e e'). nonstop (snd c)))
       \<and> (\<forall>r. res = Inr r
            \<longrightarrow> LoopCount r \<le> MaxLoops (config a) \<and> int (length (new_calls e e')) = LoopCount r)"
proof -
  obtain out st' where loop: "Run_loop marshal a (Run_init a prompt e) = (out, st')"
    by (cases "Run_loop marshal a (Run_init a prompt e)")
  have init: "r_reason (Run_init a prompt e) \<noteq> ''stop''" "r_loopCount (Run_init a prompt e) = 0"
    "r_env (Run_init a prompt e) = e"
    by (simp_all add: Run_init_def)
  from assms(1) loop have res: "Run_result (out, st') = (res, e')"
    by (simp add: Run_def)
  then have e': "e' = r_env st'"
    by (auto simp: Run_result_def split: option.splits list.splits)
  from res have err: "res = Inl err \<longleftrightarrow> out = Some err \<or> (out = None \<and> err \<in> {PanicNilDereference, NoResponseFromAPI} \<and> res = Inl err)" for err
    by (auto simp: Run_result_def split: option.splits list.splits)
  from res have ok: "res = Inr r \<Longrightarrow> out = None \<and> LoopCount r = r_loopCount st'" for r
    by (auto simp: Run_result_def split: option.splits list.splits)
  have none: "\<exists>r. res = Inr r" if "out = None"
  proof -
    from loop that have "Run_loop marshal a (Run_init a prompt e) = (None, st')" by simp
    from Run_loop_lastResponse [OF this init(1)] res that show ?thesis
      by (auto simp: Run_result_def)
  qed
  note count = Run_loop_count [OF loop, unfolded init, folded e']
  show ?thesis
  proof (intro conjI impI allI)
    assume h: "(\<forall>c \<in> set (new_calls e e'). nonstop (snd c)) \<and> (\<forall>m. res \<noteq> Inl (EncodeToolResult m))"
    with Run_loop_nonstop [OF loop init(1)] have "out = Some (IterationLimitExceeded (MaxLoops (config a)))"
      unfolding init e' using err by blast
    with err show "res = Inl (IterationLimitExceeded (MaxLoops (config a)))" by blast
    with err none have "out = Some (IterationLimitExceeded (MaxLoops (config a)))"
      by (cases out) auto
    with count assms(2) show "int (length (new_calls e e')) = MaxLoops (config a)" by simp
  next
    fix k assume "res = Inl (IterationLimitExceeded k)"
    with err none have o: "out = Some (IterationLimitExceeded k)" by (cases out) auto
    with count assms(2) show "k = MaxLoops (config a)"
      "int (length (new_calls e e')) = MaxLoops (config a)"
      "\<forall>c \<in> set (new_calls e e'). nonstop (snd c)" by simp_all
  next
    fix r assume r: "res = Inr r"
    from ok [OF r] count init(1) show "LoopCount r \<le> MaxLoops (config a)"
      "int (length (new_calls e e')) = LoopCount r" by simp_all
  qed
qed

theorem Run_iteration_limit_witness:
  "0 \<le> MaxLoops (config (testAgent 2 [echoTool] scriptNonstop))
   \<and> list_all nonstop (map snd (new_calls env0 (snd (Run quoted (testAgent 2 [echoTool] scriptNonstop) ''hi'' env0))))
   \<and> fst (Run quoted (testAgent 2 [echoTool] scriptNonstop) ''hi'' env0) = Inl (IterationLimitExceeded 2)
   \<and> length (new_calls env0 (snd (Run quoted (testAgent 2 [echoTool] scriptNonstop) ''hi'' env0))) = 2"
proof -
  let ?a = "testAgent 2 [echoTool] scriptNonstop"
  let ?run = "Run quoted ?a ''hi'' env0"
  have k: "MaxLoops (config ?a) = 2"
    by (simp add: testAgent_def RegisterTool_def)
  have ns: "list_all nonstop (map snd (new_calls env0 (snd ?run)))"
    by code_simp
  have enc: "(case fst ?run of Inl (EncodeToolResult m) \<Rightarrow> False | _ \<Rightarrow> True)"
    by code_simp
  have run: "?run = (fst ?run, snd ?run)" by simp
  from ns have "\<forall>c \<in> set (new_calls env0 (snd ?run)). nonstop (snd c)"
    by (simp add: list_all_iff)
  moreover from enc have "\<forall>m. fst ?run \<noteq> Inl (EncodeToolResult m)"
    by (auto split: sum.splits error.splits)
  ultimately show ?thesis
    using Run_iteration_limit [OF run] ns k by simp
qed

text \<open>
  As stated the claim fails: with the ceiling at 2 the only answer given carries
  \<open>tool_calls\<close>, its tool returns a value that cannot be encoded, and \<open>Run\<close> fails with
  the encoding error after one call.
\<close>

theorem Run_iteration_limit_counterexample:
  "MaxLoops (config (testAgent 2 [chanTool] scriptChan)) = 2
   \<and> map nonstop (map snd (new_calls env0 (snd (Run quoted (testAgent 2 [chanTool] scriptChan) ''hi'' env0)))) = [True]
   \<and> fst (Run quoted (testAgent 2 [chanTool] scriptChan) ''hi'' env0)
       = Inl (EncodeToolResult ''json: unsupported type: chan int'')"
  by code_simp

lemma usages_append: "usages (cs @ cs') = usages cs @ usages cs'"
  by (induction cs rule: usages.induct) simp_all

lemma sint_sum_list:
  fixes ws :: "64 word list"
  assumes "- (2 ^ 63) \<le> (\<Sum>w\<leftarrow>ws. sint w)" and "(\<Sum>w\<leftarrow>ws. sint w) < 2 ^ 63"
  shows "sint (sum_list ws) = (\<Sum>w\<leftarrow>ws. sint w)"
proof -
  have "sum_list ws = word_of_int (\<Sum>w\<leftarrow>ws. sint w)"
    by (induction ws) simp_all
  then have "sint (sum_list ws) = signed_take_bit 63 (\<Sum>w\<leftarrow>ws. sint w)"
    by (simp add: sint_sbintrunc')
  with assms show ?thesis
    by (simp add: signed_take_bit_int_eq_self)
qed

lemma foldl_addUsage:
  "PromptTokens (foldl addUsage u us) = PromptTokens u + sum_list (map PromptTokens us)"
  "CompletionTokens (foldl addUsage u us) = CompletionTokens u + sum_list (map CompletionTokens us)"
  "TotalTokens (foldl addUsage u us) = TotalTokens u + sum_list (map TotalTokens us)"
  by (induction us arbitrary: u) (simp_all add: addUsage_def)

text \<open>
  The totals grow by the counters of every answer that has a first choice, whatever its
  indicator, and also when the loop is left by an error later.
\<close>

lemma Run_loop_usage:
  assumes "Run_loop marshal a st = (out, st')" and "out \<noteq> Some PanicIndexOutOfRange"
  shows "r_totalUsage st' = foldl addUsage (r_totalUsage st) (usages (new_calls (r_env st) (r_env st')))"
  using assms
proof (induction rule: Run_loop_induct)
  case (stop st)
  then show ?case by (simp add: new_calls_def)
next
  case (abort st err st1)
  from abort(2,3) show ?case
    by (cases rule: Run_body_AbortE) (auto simp: new_calls_def dest!: callAPI_calls)
next
  case (step st st1 out st')
  from step(2) obtain resp where
    u: "r_totalUsage st1 = addUsage (r_totalUsage st) (apiResponse.Usage resp)"
    and c1: "calls (r_env st1) = calls (r_env st) @ [(r_messages st, Inr resp)]"
    by (rule Run_body_NextE)
  from Run_loop_calls [OF step(3)] have
    c2: "calls (r_env st') = calls (r_env st1) @ new_calls (r_env st1) (r_env st')" .
  have n: "new_calls (r_env st) (r_env st')
             = (r_messages st, Inr resp) # new_calls (r_env st1) (r_env st')"
    by (rule new_calls_step [OF c1 c2])
  from step(4) [OF step(5)] u show ?case by (simp add: n)
qed

lemma Run_loop_responses:
  assumes "Run_loop marshal a st = (None, st')"
  shows "length (usages (new_calls (r_env st) (r_env st'))) = length (new_calls (r_env st) (r_env st'))"
  using assms
proof (induction st "None :: error option" st' rule: Run_loop_induct)
  case (stop st)
  then show ?case by (simp add: new_calls_def)
next
  case (step st st1 st')
  from step(2) obtain resp where
    c1: "calls (r_env st1) = calls (r_env st) @ [(r_messages st, Inr resp)]"
    by (rule Run_body_NextE)
  from Run_loop_calls [OF step(3)] have
    c2: "calls (r_env st') = calls (r_env st1) @ new_calls (r_env st1) (r_env st')" .
  have n: "new_calls (r_env st) (r_env st')
             = (r_messages st, Inr resp) # new_calls (r_env st1) (r_env st')"
    by (rule new_calls_step [OF c1 c2])
  from step(4) show ?case by (simp add: n)
qed

lemma Run_usage_total:
  assumes "Run marshal a prompt e = (Inr r, e')"
  shows "PromptTokens (Response.Usage r) = (\<Sum>u\<leftarrow>usages (new_calls e e'). PromptTokens u)
       \<and> CompletionTokens (Response.Usage r) = (\<Sum>u\<leftarrow>usages (new_calls e e'). CompletionTokens u)
       \<and> TotalTokens (Response.Usage r) = (\<Sum>u\<leftarrow>usages (new_calls e e'). TotalTokens u)
       \<and> length (usages (new_calls e e')) = length (new_calls e e')
       \<and> int (length (new_calls e e')) = LoopCount r"
proof -
  obtain out st' where loop: "Run_loop marshal a (Run_init a prompt e) = (out, st')"
    by (cases "Run_loop marshal a (Run_init a prompt e)")
  have init: "r_reason (Run_init a prompt e) \<noteq> ''stop''" "r_loopCount (Run_init a prompt e) = 0"
    "r_env (Run_init a prompt e) = e" "r_totalUsage (Run_init a prompt e) = zeroUsage"
    by (simp_all add: Run_init_def)
  from assms loop have res: "Run_result (out, st') = (Inr r, e')"
    by (simp add: Run_def)
  then have o: "out = None" and e': "e' = r_env st'"
    and r: "Response.Usage r = r_totalUsage st'" "LoopCount r = r_loopCount st'"
    by (auto simp: Run_result_def split: option.splits list.splits)
  from Run_loop_usage [OF loop] o
  have "Response.Usage r = foldl addUsage zeroUsage (usages (new_calls e e'))"
    by (simp add: init r e')
  moreover from Run_loop_responses [OF loop [unfolded o]]
  have "length (usages (new_calls e e')) = length (new_calls e e')"
    by (simp add: init e')
  moreover from Run_loop_count [OF loop] o
  have "int (length (new_calls e e')) = LoopCount r"
    by (simp add: init r e')
  ultimately show ?thesis
    by (simp add: foldl_addUsage zeroUsage_def)
qed

text \<open>As long as the true sum fits into 64 bits, the word sum is that sum.\<close>

lemma sint_sum_map:
  fixes f :: "Usage \<Rightarrow> 64 word"
  assumes "- (2 ^ 63) \<le> (\<Sum>u\<leftarrow>us. sint (f u)) \<and> (\<Sum>u\<leftarrow>us. sint (f u)) < 2 ^ 63"
  shows "sint (\<Sum>u\<leftarrow>us. f u) = (\<Sum>u\<leftarrow>us. sint (f u))"
  using sint_sum_list [of "map f us"] assms by (simp add: comp_def)

text \<open>
  C5 (amended). When \<open>Run\<close> returns a response, each of its three counters is the sum,
  in the arithmetic of Go's 64-bit \<open>int\<close> (which wraps around), of that counter over the
  answers of all the calls the run made to the endpoint; every one of these calls, one
  per iteration, was answered by a response and is counted, whatever its indicator, and
  the counters are never reset. That sum is the exact sum of the reported integers
  whenever the exact sum is itself a 64-bit \<open>int\<close>.
\<close>

theorem Run_usage_sum:
  assumes "Run marshal a prompt e = (Inr r, e')"
  shows "PromptTokens (Response.Usage r) = (\<Sum>u\<leftarrow>usages (new_calls e e'). PromptTokens u)
       \<and> CompletionTokens (Response.Usage r) = (\<Sum>u\<leftarrow>usages (new_calls e e'). CompletionTokens u)
       \<and> TotalTokens (Response.Usage r) = (\<Sum>u\<leftarrow>usages (new_calls e e'). TotalTokens u)
       \<and> length (usages (new_calls e e')) = length (new_calls e e')
       \<and> int (length (new_calls e e')) = LoopCount r
       \<and> (- (2 ^ 63) \<le> (\<Sum>u\<leftarrow>usages (new_calls e e'). sint (PromptTokens u))
            \<and> (\<Sum>u\<leftarrow>usages (new_calls e e'). sint (PromptTokens u)) < 2 ^ 63
          \<longrightarrow> sint (PromptTokens (Response.Usage r))
                = (\<Sum>u\<leftarrow>usages (new_calls e e'). sint (PromptTokens u)))
       \<and> (- (2 ^ 63) \<le> (\<Sum>u\<leftarrow>usages (new_calls e e'). sint (CompletionTokens u))
            \<and> (\<Sum>u\<leftarrow>usages (new_calls e e'). sint (CompletionTokens u)) < 2 ^ 63
          \<longrightarrow> sint (CompletionTokens (Response.Usage r))
                = (\<Sum>u\<leftarrow>usages (new_calls e e'). sint (CompletionTokens u)))
       \<and> (- (2 ^ 63) \<le> (\<Sum>u\<leftarrow>usages (new_calls e e'). sint (TotalTokens u))
            \<and> (\<Sum>u\<leftarrow>usages (new_calls e e'). sint (TotalTokens u)) < 2 ^ 63
          \<longrightarrow> sint (TotalTokens (Response.Usage r))
                = (\<Sum>u\<leftarrow>usages (new_calls e e'). sint (TotalTokens u)))"
  using Run_usage_total [OF assms]
    sint_sum_map [where us = "usages (new_calls e e')" and f = PromptTokens]
    sint_sum_map [where us = "usages (new_calls e e')" and f = CompletionTokens]
    sint_sum_map [where us = "usages (new_calls e e')" and f = TotalTokens]
  by simp

theorem Run_usage_sum_witness:
  "fst (Run quoted (testAgent 20 [echoTool, failTool] scriptMixed) ''hi'' env0)
     = Inr \<lparr>Response.Content = ''done'',
            Response.Usage = \<lparr>PromptTokens = 100, CompletionTokens = 4, TotalTokens = 104\<rparr>,
            Response.FinishReason = ''stop'', LoopCount = 4\<rparr>
   \<and> map PromptTokens (usages (new_calls env0 (snd (Run quoted (testAgent 20 [echoTool, failTool] scriptMixed) ''hi'' env0))))
       = [10, 20, 30, 40]
   \<and> (100 :: 64 word) = (\<Sum>u\<leftarrow>usages (new_calls env0 (snd (Run quoted (testAgent 20 [echoTool, failTool] scriptMixed) ''hi'' env0))). PromptTokens u)
   \<and> sint (100 :: 64 word) = (\<Sum>u\<leftarrow>usages (new_calls env0 (snd (Run quoted (testAgent 20 [echoTool, failTool] scriptMixed) ''hi'' env0))). sint (PromptTokens u))"
proof -
  let ?run = "Run quoted (testAgent 20 [echoTool, failTool] scriptMixed) ''hi'' env0"
  let ?r = "\<lparr>Response.Content = ''done'',
            Response.Usage = \<lparr>PromptTokens = 100, CompletionTokens = 4, TotalTokens = 104\<rparr>,
            Response.FinishReason = ''stop'', LoopCount = 4\<rparr>"
  have r: "fst ?run = Inr ?r"
    by code_simp
  have us: "map PromptTokens (usages (new_calls env0 (snd ?run))) = [10, 20, 30, 40]"
    by code_simp
  from r have run: "?run = (Inr ?r, snd ?run)"
    by (metis prod.collapse)
  have si: "map (\<lambda>u. sint (PromptTokens u)) (usages (new_calls env0 (snd ?run))) = [10, 20, 30, 40]"
    by code_simp
  from Run_usage_sum [OF run] r us si show ?thesis by simp
qed

text \<open>
  As stated the claim fails: the endpoint reports 9223372036854775807 prompt tokens, then 1.
  The exact sum is 9223372036854775808; \<open>Run\<close> returns -9223372036854775808.
\<close>

theorem Run_usage_sum_counterexample:
  "map (sint \<circ> PromptTokens)
       (usages (new_calls env0 (snd (Run quoted (testAgent 5 [echoTool] scriptOverflow) ''hi'' env0))))
     = [9223372036854775807, 1]
   \<and> sum_list (map (sint \<circ> PromptTokens)
       (usages (new_calls env0 (snd (Run quoted (testAgent 5 [echoTool] scriptOverflow) ''hi'' env0)))))
     = 9223372036854775808
   \<and> map_sum id (sint \<circ> PromptTokens \<circ> Response.Usage)
       (fst (Run quoted (testAgent 5 [echoTool] scriptOverflow) ''hi'' env0))
     = Inr (- 9223372036854775808)
   \<and> map_sum id LoopCount (fst (Run quoted (testAgent 5 [echoTool] scriptOverflow) ''hi'' env0))
     = Inr 2"
  by code_simp

section \<open>Tool calls\<close>

lemma executeTool_not_found:
  "tools a name = None \<Longrightarrow> executeTool a name args w = (Inl (''tool not found: '' @ name), w)"
  by (simp add: executeTool_def)


lemma RegisterTool_last_wins:
  "executeTool (RegisterTool (RegisterTool a t1) t2) (Tool.Name t2) args w = Handler t2 args w"
  by (simp add: executeTool_def RegisterTool_def)

lemma runToolCalls_failure:
  "executeTool a (apiFunctionCall.Name (Function toolCall)) (Arguments (Function toolCall)) w = (Inl err, w') \<Longrightarrow>
     runToolCalls marshal a (toolCall # rest) msgs w
       = runToolCalls marshal a rest (msgs @ [ToolResponse (errorPayload err) (apiToolCall.ID toolCall)]) w'"
  by (simp add: toolContent_def)

lemma runToolCalls_encoded:
  "executeTool a (apiFunctionCall.Name (Function toolCall)) (Arguments (Function toolCall)) w = (Inr v, w') \<Longrightarrow>
   marshal v = Inr resultJSON \<Longrightarrow>
     runToolCalls marshal a (toolCall # rest) msgs w
       = runToolCalls marshal a rest (msgs @ [ToolResponse resultJSON (apiToolCall.ID toolCall)]) w'"
  by (simp add: toolContent_def)

lemma runToolCalls_unencodable:
  "executeTool a (apiFunctionCall.Name (Function toolCall)) (Arguments (Function toolCall)) w = (Inr v, w') \<Longrightarrow>
   marshal v = Inl m \<Longrightarrow>
     runToolCalls marshal a (toolCall # rest) msgs w = (Some (EncodeToolResult m), msgs, w')"
  by (simp add: toolContent_def)

lemma runToolCalls_append:
  "runToolCalls marshal a (xs @ ys) msgs w =
     (case runToolCalls marshal a xs msgs w of
        (None, msgs1, w1) \<Rightarrow> runToolCalls marshal a ys msgs1 w1
      | (Some err, msgs1, w1) \<Rightarrow> (Some err, msgs1, w1))"
  by (induction xs arbitrary: msgs w) (auto split: prod.splits sum.splits option.splits)

text \<open>A tool loop that runs to its end has appended one tool message per request, in order.\<close>

lemma runToolCalls_ok:
  "runToolCalls marshal a tcs msgs w = (None, msgs', w') \<Longrightarrow>
     \<exists>new. msgs' = msgs @ new \<and> map tool_call_id new = map (\<lambda>tc. Some (apiToolCall.ID tc)) tcs"
proof (induction tcs arbitrary: msgs w)
  case Nil
  then show ?case by simp
next
  case (Cons tc tcs)
  obtain r w1 where ex:
    "executeTool a (apiFunctionCall.Name (Function tc)) (Arguments (Function tc)) w = (r, w1)"
    by (cases "executeTool a (apiFunctionCall.Name (Function tc)) (Arguments (Function tc)) w")
  from Cons.prems ex obtain content where
    "runToolCalls marshal a tcs (msgs @ [ToolResponse content (apiToolCall.ID tc)]) w1 = (None, msgs', w')"
    by (cases "toolContent marshal r") simp_all
  from Cons.IH [OF this] obtain new where
    "msgs' = (msgs @ [ToolResponse content (apiToolCall.ID tc)]) @ new"
    "map tool_call_id new = map (\<lambda>tc. Some (apiToolCall.ID tc)) tcs"
    by blast
  then have "msgs' = msgs @ (ToolResponse content (apiToolCall.ID tc) # new)
      \<and> map tool_call_id (ToolResponse content (apiToolCall.ID tc) # new)
          = map (\<lambda>tc. Some (apiToolCall.ID tc)) (tc # tcs)"
    by (simp add: tool_call_id_def)
  then show ?case by blast
qed

text \<open>A tool loop that is left early has appended tool messages for the requests before the one it left at.\<close>

lemma runToolCalls_abort:
  "runToolCalls marshal a tcs msgs w = (Some err, msgs', w') \<Longrightarrow>
     \<exists>before tc after new. tcs = before @ tc # after \<and> msgs' = msgs @ new
        \<and> map tool_call_id new = map (\<lambda>tc. Some (apiToolCall.ID tc)) before"
proof (induction tcs arbitrary: msgs w)
  case Nil
  then show ?case by simp
next
  case (Cons tc tcs)
  obtain r w1 where ex:
    "executeTool a (apiFunctionCall.Name (Function tc)) (Arguments (Function tc)) w = (r, w1)"
    by (cases "executeTool a (apiFunctionCall.Name (Function tc)) (Arguments (Function tc)) w")
  show ?case
  proof (cases "toolContent marshal r")
    case (Inl m)
    with Cons.prems ex have "msgs' = msgs @ []" by simp
    moreover have "tc # tcs = [] @ tc # tcs" by simp
    ultimately show ?thesis by (metis list.simps(8))
  next
    case (Inr content)
    with Cons.prems ex have
      "runToolCalls marshal a tcs (msgs @ [ToolResponse content (apiToolCall.ID tc)]) w1 = (Some err, msgs', w')"
      by simp
    from Cons.IH [OF this] obtain before tc' after new where
      "tcs = before @ tc' # after" "msgs' = (msgs @ [ToolResponse content (apiToolCall.ID tc)]) @ new"
      "map tool_call_id new = map (\<lambda>tc. Some (apiToolCall.ID tc)) before"
      by blast
    then have "tc # tcs = (tc # before) @ tc' # after
        \<and> msgs' = msgs @ (ToolResponse content (apiToolCall.ID tc) # new)
        \<and> map tool_call_id (ToolResponse content (apiToolCall.ID tc) # new)
            = map (\<lambda>tc. Some (apiToolCall.ID tc)) (tc # before)"
      by (simp add: tool_call_id_def)
    then show ?thesis by blast
  qed
qed

section \<open>The loop of runTurn is the loop of Run, with events\<close>

lemma sendEvent_fields [simp]:
  "loopCount (sendEvent s ev) = loopCount s"
  "totalUsage (sendEvent s ev) = totalUsage s"
  "messages (sendEvent s ev) = messages s"
  "closed (sendEvent s ev) = closed s"
  "ctx_done (sendEvent s ev) = ctx_done s"
  "input (sendEvent s ev) = input s"
  "is_closed (events (sendEvent s ev)) = is_closed (events s)"
  by (simp_all add: sendEvent_def Let_def)


text \<open>With a cancelled context the event is sent or dropped, as the runtime picks.\<close>

lemma sendEvent_cancelled:
  "ctx_done s \<Longrightarrow>
     sent (events (sendEvent s ev)) = (if picks s 0 then sent (events s) @ [ev] else sent (events s))
     \<and> picks (sendEvent s ev) = (\<lambda>n. picks s (Suc n))"
  by (simp add: sendEvent_def Let_def)

lemma sendEvent_grow: "\<exists>new. sent (events (sendEvent s ev)) = sent (events s) @ new"
  by (simp add: sendEvent_def Let_def)

lemma turnToolCalls_run:
  "turnToolCalls marshal a tcs s msgs w = (out, s', msgs', w') \<Longrightarrow>
     runToolCalls marshal a tcs msgs w = (out, msgs', w')"
proof (induction tcs arbitrary: s msgs w)
  case Nil
  then show ?case by simp
next
  case (Cons tc tcs)
  obtain r w1 where ex:
    "executeTool a (apiFunctionCall.Name (Function tc)) (Arguments (Function tc)) w = (r, w1)"
    by (cases "executeTool a (apiFunctionCall.Name (Function tc)) (Arguments (Function tc)) w")
  show ?case
  proof (cases "toolContent marshal r")
    case (Inl m)
    with Cons.prems ex show ?thesis by (auto simp: Let_def)
  next
    case (Inr content)
    with Cons.prems ex obtain s1 where
      "turnToolCalls marshal a tcs s1 (msgs @ [ToolResponse content (apiToolCall.ID tc)]) w1
         = (out, s', msgs', w')"
      by (simp add: Let_def)
    from Cons.IH [OF this] ex Inr show ?thesis by simp
  qed
qed

text \<open>The inner loop touches nothing of the session but the events sent.\<close>

lemma turnToolCalls_session:
  "turnToolCalls marshal a tcs s msgs w = (out, s', msgs', w') \<Longrightarrow>
     loopCount s' = loopCount s \<and> totalUsage s' = totalUsage s \<and> messages s' = messages s
     \<and> closed s' = closed s \<and> ctx_done s' = ctx_done s \<and> input s' = input s
     \<and> is_closed (events s') = is_closed (events s)"
proof (induction tcs arbitrary: s msgs w)
  case Nil
  then show ?case by simp
next
  case (Cons tc tcs)
  obtain r w1 where ex:
    "executeTool a (apiFunctionCall.Name (Function tc)) (Arguments (Function tc)) w = (r, w1)"
    by (cases "executeTool a (apiFunctionCall.Name (Function tc)) (Arguments (Function tc)) w")
  show ?case
  proof (cases "toolContent marshal r")
    case (Inl m)
    with Cons.prems ex show ?thesis by (auto simp: Let_def)
  next
    case (Inr content)
    with Cons.prems ex obtain s1 where
      "turnToolCalls marshal a tcs s1 (msgs @ [ToolResponse content (apiToolCall.ID tc)]) w1
         = (out, s', msgs', w')"
      and "loopCount s1 = loopCount s \<and> totalUsage s1 = totalUsage s \<and> messages s1 = messages s
     \<and> closed s1 = closed s \<and> ctx_done s1 = ctx_done s \<and> input s1 = input s
     \<and> is_closed (events s1) = is_closed (events s)"
      by (simp add: Let_def)
    with Cons.IH [of s1] show ?thesis by metis
  qed
qed

lemma turnToolCalls_events_grow:
  "turnToolCalls marshal a tcs s msgs w = (out, s', msgs', w') \<Longrightarrow>
     \<exists>new. sent (events s') = sent (events s) @ new"
proof (induction tcs arbitrary: s msgs w)
  case Nil
  then show ?case by simp
next
  case (Cons tc tcs)
  obtain r w1 where ex:
    "executeTool a (apiFunctionCall.Name (Function tc)) (Arguments (Function tc)) w = (r, w1)"
    by (cases "executeTool a (apiFunctionCall.Name (Function tc)) (Arguments (Function tc)) w")
  let ?s1 = "sendEvent s \<lparr>AgentEvent.Type = EventToolCall,
                           AgentEvent.Content = apiFunctionCall.Name (Function tc),
                           Data = Some (Arguments (Function tc)),
                           Iteration = loopCount s\<rparr>"
  from sendEvent_grow obtain n1 where n1: "sent (events ?s1) = sent (events s) @ n1" by blast
  show ?case
  proof (cases "toolContent marshal r")
    case (Inl m)
    with Cons.prems ex obtain ev where s': "s' = sendEvent ?s1 ev"
      by (auto simp: Let_def)
    from sendEvent_grow [of ?s1 ev] obtain n2 where
      "sent (events s') = sent (events ?s1) @ n2" unfolding s' by blast
    with n1 have "sent (events s') = sent (events s) @ (n1 @ n2)" by simp
    then show ?thesis by blast
  next
    case (Inr content)
    with Cons.prems ex obtain ev where
      t: "turnToolCalls marshal a tcs (sendEvent ?s1 ev) (msgs @ [ToolResponse content (apiToolCall.ID tc)]) w1
         = (out, s', msgs', w')"
      by (simp add: Let_def)
    from sendEvent_grow [of ?s1 ev] obtain n2 where
      n2: "sent (events (sendEvent ?s1 ev)) = sent (events ?s1) @ n2" by blast
    from Cons.IH [OF t] obtain n3 where
      "sent (events s') = sent (events (sendEvent ?s1 ev)) @ n3" by blast
    with n1 n2 have "sent (events s') = sent (events s) @ (n1 @ n2 @ n3)" by simp
    then show ?thesis by blast
  qed
qed

subsection \<open>One pass of the body of runTurn\<close>

lemma turn_body_limit:
  "MaxLoops (config a) < loopCount (t_session st) + 1 \<Longrightarrow>
     turn_body marshal a st =
       Abort (IterationLimitExceeded (MaxLoops (config a)))
         (st\<lparr>turnLoopCount := turnLoopCount st + 1,
             t_session := sendEvent ((t_session st)\<lparr>loopCount := loopCount (t_session st) + 1\<rparr>)
                            (errorEvent (IterationLimitExceeded (MaxLoops (config a)))
                               (loopCount (t_session st) + 1))\<rparr>)"
  by (simp add: turn_body_def Let_def errorEvent_def)

lemma turn_body_api_error:
  "loopCount (t_session st) + 1 \<le> MaxLoops (config a) \<Longrightarrow>
   callAPI a (t_messages st) (t_env st) = (Inl err, e) \<Longrightarrow>
     turn_body marshal a st =
       Abort (APICallError err)
         (st\<lparr>turnLoopCount := turnLoopCount st + 1,
             t_session := sendEvent
                 (sendEvent ((t_session st)\<lparr>loopCount := loopCount (t_session st) + 1\<rparr>)
                    (startEvent (loopCount (t_session st) + 1)))
                 (errorEvent (APICallError err) (loopCount (t_session st) + 1)),
             t_env := e\<rparr>)"
  by (simp add: turn_body_def Let_def errorEvent_def startEvent_def)

lemma turn_body_no_choice:
  "loopCount (t_session st) + 1 \<le> MaxLoops (config a) \<Longrightarrow>
   callAPI a (t_messages st) (t_env st) = (Inr resp, e) \<Longrightarrow> Choices resp = [] \<Longrightarrow>
     turn_body marshal a st =
       Abort PanicIndexOutOfRange
         (st\<lparr>turnLoopCount := turnLoopCount st + 1,
             t_session := sendEvent ((t_session st)\<lparr>loopCount := loopCount (t_session st) + 1\<rparr>)
                            (startEvent (loopCount (t_session st) + 1)),
             t_env := e, t_lastResponse := Some resp\<rparr>)"
  by (simp add: turn_body_def Let_def startEvent_def)

lemma turn_body_other:
  "loopCount (t_session st) + 1 \<le> MaxLoops (config a) \<Longrightarrow>
   callAPI a (t_messages st) (t_env st) = (Inr resp, e) \<Longrightarrow> Choices resp = choice # rest \<Longrightarrow>
   apiChoice.FinishReason choice \<noteq> ''tool_calls'' \<Longrightarrow>
     turn_body marshal a st =
       Next (st\<lparr>turnLoopCount := turnLoopCount st + 1,
                t_session := (sendEvent ((t_session st)\<lparr>loopCount := loopCount (t_session st) + 1\<rparr>)
                               (startEvent (loopCount (t_session st) + 1)))
                             \<lparr>totalUsage := addUsage (totalUsage (t_session st)) (apiResponse.Usage resp)\<rparr>,
                t_env := e, t_lastResponse := Some resp,
                t_reason := apiChoice.FinishReason choice\<rparr>)"
  by (simp add: turn_body_def Let_def startEvent_def)

lemma turn_body_tools:
  "loopCount (t_session st) + 1 \<le> MaxLoops (config a) \<Longrightarrow>
   callAPI a (t_messages st) (t_env st) = (Inr resp, e) \<Longrightarrow> Choices resp = choice # rest \<Longrightarrow>
   apiChoice.FinishReason choice = ''tool_calls'' \<Longrightarrow>
   turnToolCalls marshal a (ToolCalls (Message choice))
      ((sendEvent ((t_session st)\<lparr>loopCount := loopCount (t_session st) + 1\<rparr>)
           (startEvent (loopCount (t_session st) + 1)))
         \<lparr>totalUsage := addUsage (totalUsage (t_session st)) (apiResponse.Usage resp)\<rparr>)
      (t_messages st @ [AssistantToolCalls (ToolCalls (Message choice))]) (world e) = (out, s, msgs, w) \<Longrightarrow>
     turn_body marshal a st =
       (let st' = st\<lparr>turnLoopCount := turnLoopCount st + 1, t_session := s,
                      t_env := e\<lparr>world := w\<rparr>, t_lastResponse := Some resp,
                      t_reason := ''tool_calls'', t_messages := msgs\<rparr>
        in case out of None \<Rightarrow> Next st' | Some err \<Rightarrow> Abort err st')"
  by (simp add: turn_body_def Let_def startEvent_def split: option.splits)

text \<open>Read through \<open>as_run\<close>, a pass of \<open>runTurn\<close>'s loop is a pass of \<open>Run\<close>'s.\<close>

lemma turn_body_simulates:
  "map_step as_run (turn_body marshal a st) = Run_body marshal a (as_run st)"
proof (cases "loopCount (t_session st) + 1 \<le> MaxLoops (config a)")
  case False
  then show ?thesis
    by (simp add: turn_body_limit Run_body_limit as_run_def)
next
  case le: True
  then have le': "r_loopCount (as_run st) + 1 \<le> MaxLoops (config a)"
    by (simp add: as_run_def)
  obtain r e where c: "callAPI a (t_messages st) (t_env st) = (r, e)"
    by (cases "callAPI a (t_messages st) (t_env st)")
  then have c': "callAPI a (r_messages (as_run st)) (r_env (as_run st)) = (r, e)"
    by (simp add: as_run_def)
  show ?thesis
  proof (cases r)
    case (Inl m)
    from turn_body_api_error [OF le c [unfolded Inl]] Run_body_api_error [OF le' c' [unfolded Inl]]
    show ?thesis by (simp add: as_run_def)
  next
    case (Inr resp)
    note c = c [unfolded Inr] and c' = c' [unfolded Inr]
    show ?thesis
    proof (cases "Choices resp")
      case Nil
      from turn_body_no_choice [OF le c Nil] Run_body_no_choice [OF le' c' Nil]
      show ?thesis by (simp add: as_run_def)
    next
      case (Cons choice rest)
      show ?thesis
      proof (cases "apiChoice.FinishReason choice = ''tool_calls''")
        case False
        from turn_body_other [OF le c Cons False] Run_body_other [OF le' c' Cons False]
        show ?thesis by (simp add: as_run_def)
      next
        case True
        obtain out s msgs w where t: "turnToolCalls marshal a (ToolCalls (Message choice))
          ((sendEvent ((t_session st)\<lparr>loopCount := loopCount (t_session st) + 1\<rparr>)
               (startEvent (loopCount (t_session st) + 1)))
             \<lparr>totalUsage := addUsage (totalUsage (t_session st)) (apiResponse.Usage resp)\<rparr>)
          (t_messages st @ [AssistantToolCalls (ToolCalls (Message choice))]) (world e) = (out, s, msgs, w)"
          by (metis prod_cases4)
        from turnToolCalls_run [OF t] have
          t': "runToolCalls marshal a (ToolCalls (Message choice))
            (r_messages (as_run st) @ [AssistantToolCalls (ToolCalls (Message choice))]) (world e) = (out, msgs, w)"
          by (simp add: as_run_def)
        from turnToolCalls_session [OF t] have
          s: "loopCount s = loopCount (t_session st) + 1"
             "totalUsage s = addUsage (totalUsage (t_session st)) (apiResponse.Usage resp)"
          by simp_all
        from turn_body_tools [OF le c Cons True t] Run_body_tools [OF le' c' Cons True t'] s
        show ?thesis by (cases out) (simp_all add: as_run_def Let_def)
      qed
    qed
  qed
qed

subsection \<open>The loop of runTurn\<close>

lemma turn_loop_stop: "t_reason st = ''stop'' \<Longrightarrow> turn_loop marshal a st = (None, st)"
  by (simp add: turn_loop.simps)

lemma turn_loop_Next:
  "t_reason st \<noteq> ''stop'' \<Longrightarrow> turn_body marshal a st = Next st' \<Longrightarrow>
     turn_loop marshal a st = turn_loop marshal a st'"
  by (subst turn_loop.simps) simp

lemma turn_loop_Abort:
  "t_reason st \<noteq> ''stop'' \<Longrightarrow> turn_body marshal a st = Abort err st' \<Longrightarrow>
     turn_loop marshal a st = (Some err, st')"
  by (subst turn_loop.simps) simp

lemma turn_loop_induct [consumes 1, case_names stop abort step]:
  assumes run: "turn_loop marshal a st = (out, st')"
    and stop: "\<And>st. t_reason st = ''stop'' \<Longrightarrow> P st None st"
    and abort: "\<And>st err st1. t_reason st \<noteq> ''stop'' \<Longrightarrow> turn_body marshal a st = Abort err st1
                  \<Longrightarrow> P st (Some err) st1"
    and step: "\<And>st st1 out st'. t_reason st \<noteq> ''stop'' \<Longrightarrow> turn_body marshal a st = Next st1
                  \<Longrightarrow> turn_loop marshal a st1 = (out, st') \<Longrightarrow> P st1 out st' \<Longrightarrow> P st out st'"
  shows "P st out st'"
  using run stop abort step
proof (induction marshal a st rule: turn_loop.induct)
  case (1 marshal a st)
  note run = "1.prems"(1) and stop = "1.prems"(2) and abort = "1.prems"(3) and step = "1.prems"(4)
  show ?case
  proof (cases "t_reason st = ''stop''")
    case True
    with run stop show ?thesis by (simp add: turn_loop_stop)
  next
    case False
    show ?thesis
    proof (cases "turn_body marshal a st")
      case (Next st1)
      from run have r: "turn_loop marshal a st1 = (out, st')"
        by (simp add: turn_loop_Next [OF False Next])
      have "P st1 out st'"
        by (rule "1.IH" [OF False Next r]) (fact stop abort step)+
      with step [OF False Next r] show ?thesis .
    next
      case (Abort err st1)
      with run False abort [OF False Abort] show ?thesis
        by (simp add: turn_loop_Abort)
    qed
  qed
qed

lemma turn_body_Next_run:
  "turn_body marshal a st = Next st' \<Longrightarrow> Run_body marshal a (as_run st) = Next (as_run st')"
  using turn_body_simulates [of marshal a st] by simp

lemma turn_body_Abort_run:
  "turn_body marshal a st = Abort err st' \<Longrightarrow> Run_body marshal a (as_run st) = Abort err (as_run st')"
  using turn_body_simulates [of marshal a st] by simp

text \<open>And so a run of the one loop is a run of the other.\<close>

lemma turn_loop_simulates:
  "turn_loop marshal a st = (out, st') \<Longrightarrow> Run_loop marshal a (as_run st) = (out, as_run st')"
proof (induction rule: turn_loop_induct)
  case (stop st)
  then show ?case by (simp add: Run_loop_stop as_run_def)
next
  case (abort st err st1)
  from abort(1) have "r_reason (as_run st) \<noteq> ''stop''" by (simp add: as_run_def)
  from Run_loop_Abort [OF this turn_body_Abort_run [OF abort(2)]] show ?case .
next
  case (step st st1 out st')
  from step(1) have "r_reason (as_run st) \<noteq> ''stop''" by (simp add: as_run_def)
  from Run_loop_Next [OF this turn_body_Next_run [OF step(2)]] step(4) show ?case by simp
qed

section \<open>What one iteration does\<close>

lemma turn_body_Next_of_run:
  assumes "Run_body marshal a (as_run ts) = Next st1"
  shows "\<exists>ts1. turn_body marshal a ts = Next ts1 \<and> as_run ts1 = st1"
  using turn_body_simulates [of marshal a ts] assms
  by (cases "turn_body marshal a ts") simp_all

lemma turn_body_Abort_of_run:
  assumes "Run_body marshal a (as_run ts) = Abort err st1"
  shows "\<exists>ts1. turn_body marshal a ts = Abort err ts1 \<and> as_run ts1 = st1"
  using turn_body_simulates [of marshal a ts] assms
  by (cases "turn_body marshal a ts") simp_all

lemma as_run_fields [simp]:
  "r_messages (as_run ts) = t_messages ts" "r_reason (as_run ts) = t_reason ts"
  "r_loopCount (as_run ts) = loopCount (t_session ts)" "r_lastResponse (as_run ts) = t_lastResponse ts"
  "r_totalUsage (as_run ts) = totalUsage (t_session ts)" "r_env (as_run ts) = t_env ts"
  by (simp_all add: as_run_def)

lemma Run_body_tools_messages:
  assumes "Run_body marshal a st = Next st1"
    and "callAPI a (r_messages st) (r_env st) = (Inr resp, e)"
    and "Choices resp = choice # rest"
    and "apiChoice.FinishReason choice = ''tool_calls''"
  shows "\<exists>new. r_messages st1
               = r_messages st @ AssistantToolCalls (ToolCalls (Message choice)) # new
            \<and> map tool_call_id new = map (\<lambda>tc. Some (apiToolCall.ID tc)) (ToolCalls (Message choice))"
proof -
  from assms(1) have le: "r_loopCount st + 1 \<le> MaxLoops (config a)"
    by (rule Run_body_NextE)
  obtain out msgs w where t: "runToolCalls marshal a (ToolCalls (Message choice))
      (r_messages st @ [AssistantToolCalls (ToolCalls (Message choice))]) (world e) = (out, msgs, w)"
    by (metis prod_cases3)
  from Run_body_tools [OF le assms(2,3,4) t] assms(1)
  have "out = None" and "r_messages st1 = msgs"
    by (cases out; simp add: Let_def; fastforce)+
  with t have "runToolCalls marshal a (ToolCalls (Message choice))
      (r_messages st @ [AssistantToolCalls (ToolCalls (Message choice))]) (world e)
        = (None, r_messages st1, w)"
    by simp
  from runToolCalls_ok [OF this] show ?thesis by auto
qed

text \<open>
  C2 (amended). Take an iteration whose response carries \<open>tool_calls\<close> with a list of
  \<open>N\<close> requests and which runs to its end, that is, in which no tool result is
  rejected by \<open>json.Marshal\<close>. The loop of \<open>Run\<close> has then appended one assistant
  message carrying the whole list, followed by exactly \<open>N\<close> tool messages whose
  \<open>tool_call_id\<close>s are the identifiers of the requests, in the order of the requests;
  and from the same variables the loop of \<open>runTurn\<close> goes on with the same conversation.
\<close>

theorem tool_messages_in_order:
  assumes "Run_body marshal a st = Next st1"
    and "callAPI a (r_messages st) (r_env st) = (Inr resp, e)"
    and "Choices resp = choice # rest"
    and "apiChoice.FinishReason choice = ''tool_calls''"
  shows "(\<exists>new. r_messages st1
               = r_messages st @ AssistantToolCalls (ToolCalls (Message choice)) # new
            \<and> map tool_call_id new = map (\<lambda>tc. Some (apiToolCall.ID tc)) (ToolCalls (Message choice)))
       \<and> (\<forall>ts. as_run ts = st \<longrightarrow>
             (\<exists>ts1. turn_body marshal a ts = Next ts1 \<and> t_messages ts1 = r_messages st1))"
proof
  from assms show "\<exists>new. r_messages st1
               = r_messages st @ AssistantToolCalls (ToolCalls (Message choice)) # new
            \<and> map tool_call_id new = map (\<lambda>tc. Some (apiToolCall.ID tc)) (ToolCalls (Message choice))"
    by (rule Run_body_tools_messages)
  show "\<forall>ts. as_run ts = st \<longrightarrow>
             (\<exists>ts1. turn_body marshal a ts = Next ts1 \<and> t_messages ts1 = r_messages st1)"
  proof (intro allI impI)
    fix ts :: "'a turn_state" assume "as_run ts = st"
    with assms(1) turn_body_Next_of_run [of marshal a ts st1]
    obtain ts1 where "turn_body marshal a ts = Next ts1" "as_run ts1 = st1" by auto
    then show "\<exists>ts1. turn_body marshal a ts = Next ts1 \<and> t_messages ts1 = r_messages st1"
      by auto
  qed
qed

theorem tool_messages_in_order_witness:
  "Run_body quoted (testAgent 5 [echoTool, failTool] scriptTools)
       (Run_init (testAgent 5 [echoTool, failTool] scriptTools) ''hi'' env0)
     = Next (state_of (Run_body quoted (testAgent 5 [echoTool, failTool] scriptTools)
                (Run_init (testAgent 5 [echoTool, failTool] scriptTools) ''hi'' env0)))
   \<and> (\<exists>new. r_messages (state_of (Run_body quoted (testAgent 5 [echoTool, failTool] scriptTools)
                (Run_init (testAgent 5 [echoTool, failTool] scriptTools) ''hi'' env0)))
          = [RoleContent ''system'' ''sys'', RoleContent ''user'' ''hi'']
             @ AssistantToolCalls [request ''c1'' ''echo'' ''a'', request ''c2'' ''fail'' ''b'',
                                   request ''c3'' ''nope'' ''c''] # new
        \<and> map tool_call_id new = [Some ''c1'', Some ''c2'', Some ''c3''])"
proof -
  let ?a = "testAgent 5 [echoTool, failTool] scriptTools"
  let ?st = "Run_init ?a ''hi'' env0"
  let ?resp = "reply ''tool_calls'' [] [request ''c1'' ''echo'' ''a'', request ''c2'' ''fail'' ''b'',
                                    request ''c3'' ''nope'' ''c''] 10"
  have "case Run_body quoted ?a ?st of Next st1 \<Rightarrow> True | Abort err st1 \<Rightarrow> False"
    by code_simp
  then have n: "Run_body quoted ?a ?st = Next (state_of (Run_body quoted ?a ?st))"
    by (cases "Run_body quoted ?a ?st") simp_all
  have c: "callAPI ?a (r_messages ?st) (r_env ?st) = (Inr ?resp, snd (callAPI ?a (r_messages ?st) (r_env ?st)))"
    by (simp add: callAPI_def testAgent_def RegisterTool_def scripted_def scriptTools_def
          Run_init_def env0_def)
  have ch: "Choices ?resp = hd (Choices ?resp) # []"
    by (simp add: reply_def)
  have f: "apiChoice.FinishReason (hd (Choices ?resp)) = ''tool_calls''"
    by (simp add: reply_def)
  have m: "r_messages ?st = [RoleContent ''system'' ''sys'', RoleContent ''user'' ''hi'']"
    by (simp add: Run_init_def testAgent_def RegisterTool_def)
  have t: "ToolCalls (Message (hd (Choices ?resp)))
      = [request ''c1'' ''echo'' ''a'', request ''c2'' ''fail'' ''b'', request ''c3'' ''nope'' ''c'']"
    by (simp add: reply_def)
  from tool_messages_in_order [OF n c ch f] n show ?thesis
    unfolding m t by (simp add: request_def)
qed

text \<open>
  As stated the claim fails: the response carries one request, its result cannot be
  encoded, and the loop is left with the assistant message and no tool message.
\<close>

theorem tool_messages_in_order_counterexample:
  "map snd (calls (r_env (snd (Run_loop quoted (testAgent 2 [chanTool] scriptChan)
                                  (Run_init (testAgent 2 [chanTool] scriptChan) ''hi'' env0)))))
     = [Inr (reply ''tool_calls'' [] [request ''c1'' ''chan'' ''{}''] 5)]
   \<and> r_messages (snd (Run_loop quoted (testAgent 2 [chanTool] scriptChan)
                          (Run_init (testAgent 2 [chanTool] scriptChan) ''hi'' env0)))
     = [RoleContent ''system'' ''sys'', RoleContent ''user'' ''hi'',
        AssistantToolCalls [request ''c1'' ''chan'' ''{}'']]"
  by code_simp

section \<open>Tool failures\<close>

text \<open>A pass that is allowed by the ceiling calls the endpoint first, whatever follows.\<close>

lemma Run_loop_first_call:
  assumes "Run_loop marshal a st = (out, st')" and "r_reason st \<noteq> ''stop''"
    and "r_loopCount st + 1 \<le> MaxLoops (config a)"
  shows "\<exists>r more. new_calls (r_env st) (r_env st') = (r_messages st, r) # more"
proof (cases "Run_body marshal a st")
  case (Next st1)
  then obtain resp where
    c1: "calls (r_env st1) = calls (r_env st) @ [(r_messages st, Inr resp)]"
    by (rule Run_body_NextE)
  from assms(1) have r: "Run_loop marshal a st1 = (out, st')"
    by (simp add: Run_loop_Next [OF assms(2) Next])
  from new_calls_step [OF c1 Run_loop_calls [OF r]] show ?thesis by blast
next
  case (Abort err st1)
  with assms have st': "st' = st1" by (simp add: Run_loop_Abort)
  from Abort assms(3) show ?thesis unfolding st'
    by (cases rule: Run_body_AbortE) (auto simp: new_calls_def dest!: callAPI_calls)
qed

lemma executeTool_fails:
  assumes "tools a name = None \<and> err = ''tool not found: '' @ name \<and> w' = w
         \<or> (\<exists>tool. tools a name = Some tool \<and> Handler tool args w = (Inl err, w'))"
  shows "executeTool a name args w = (Inl err, w')"
  using assms by (auto simp: executeTool_def)

text \<open>
  A pass whose response asks for tools, one of which fails after the requests before it
  have been answered: the tool loop goes on behind the failed request, and the pass ends
  as that rest of the tool loop ends.
\<close>

lemma Run_body_failure:
  assumes le: "r_loopCount st + 1 \<le> MaxLoops (config a)"
    and api: "callAPI a (r_messages st) (r_env st) = (Inr resp, e)"
    and ch: "Choices resp = choice # rest"
    and fin: "apiChoice.FinishReason choice = ''tool_calls''"
    and tcs: "ToolCalls (Message choice) = before @ toolCall # after"
    and before: "runToolCalls marshal a before
              (r_messages st @ [AssistantToolCalls (ToolCalls (Message choice))]) (world e)
            = (None, msgs1, w1)"
    and fails: "executeTool a (apiFunctionCall.Name (Function toolCall)) (Arguments (Function toolCall)) w1
            = (Inl err, w2)"
    and after: "runToolCalls marshal a after
              (msgs1 @ [ToolResponse (errorPayload err) (apiToolCall.ID toolCall)]) w2
            = (out, msgs2, w3)"
  shows "Run_body marshal a st =
           (case out of
              None \<Rightarrow> Next (st\<lparr>r_loopCount := r_loopCount st + 1, r_env := e\<lparr>world := w3\<rparr>,
                     r_lastResponse := Some resp, r_reason := ''tool_calls'',
                     r_totalUsage := addUsage (r_totalUsage st) (apiResponse.Usage resp),
                     r_messages := msgs2\<rparr>)
            | Some err' \<Rightarrow> Abort err' (st\<lparr>r_loopCount := r_loopCount st + 1, r_env := e\<lparr>world := w3\<rparr>,
                     r_lastResponse := Some resp, r_reason := ''tool_calls'',
                     r_totalUsage := addUsage (r_totalUsage st) (apiResponse.Usage resp),
                     r_messages := msgs2\<rparr>))"
    and "\<exists>tail. msgs2 = msgs1 @ ToolResponse (errorPayload err) (apiToolCall.ID toolCall) # tail"
proof -
  have "runToolCalls marshal a (ToolCalls (Message choice))
          (r_messages st @ [AssistantToolCalls (ToolCalls (Message choice))]) (world e)
        = (out, msgs2, w3)"
    using before after fails by (simp add: runToolCalls_append tcs toolContent_def)
  from Run_body_tools [OF le api ch fin this]
  show "Run_body marshal a st =
           (case out of
              None \<Rightarrow> Next (st\<lparr>r_loopCount := r_loopCount st + 1, r_env := e\<lparr>world := w3\<rparr>,
                     r_lastResponse := Some resp, r_reason := ''tool_calls'',
                     r_totalUsage := addUsage (r_totalUsage st) (apiResponse.Usage resp),
                     r_messages := msgs2\<rparr>)
            | Some err' \<Rightarrow> Abort err' (st\<lparr>r_loopCount := r_loopCount st + 1, r_env := e\<lparr>world := w3\<rparr>,
                     r_lastResponse := Some resp, r_reason := ''tool_calls'',
                     r_totalUsage := addUsage (r_totalUsage st) (apiResponse.Usage resp),
                     r_messages := msgs2\<rparr>))"
    by (simp add: Let_def)
  show "\<exists>tail. msgs2 = msgs1 @ ToolResponse (errorPayload err) (apiToolCall.ID toolCall) # tail"
  proof (cases out)
    case None
    with after have "runToolCalls marshal a after
              (msgs1 @ [ToolResponse (errorPayload err) (apiToolCall.ID toolCall)]) w2
            = (None, msgs2, w3)" by simp
    from runToolCalls_ok [OF this] show ?thesis by auto
  next
    case (Some err')
    with after have "runToolCalls marshal a after
              (msgs1 @ [ToolResponse (errorPayload err) (apiToolCall.ID toolCall)]) w2
            = (Some err', msgs2, w3)" by simp
    from runToolCalls_abort [OF this] show ?thesis by auto
  qed
qed

lemma state_of_map_step: "state_of (map_step f x) = f (state_of x)"
  by (cases x) simp_all

lemma turn_body_messages_of_run:
  "t_messages (state_of (turn_body marshal a ts)) = r_messages (state_of (Run_body marshal a (as_run ts)))"
proof -
  have "r_messages (state_of (map_step as_run (turn_body marshal a ts)))
          = t_messages (state_of (turn_body marshal a ts))"
    by (simp add: state_of_map_step)
  then show ?thesis by (simp add: turn_body_simulates)
qed

text \<open>
  C3 (amended). Take a request of a \<open>tool_calls\<close> response that the tool loop reaches
  and whose tool is not registered, or whose handler returns an error. The loop is not
  left for that failure: the message of the error goes into the text
  \<open>{"error": "<message>"}\<close>, that text is appended as the tool message of that request,
  and the tool loop goes on with the requests behind it. This much holds whatever those
  later requests do, in \<open>Run\<close> and in \<open>runTurn\<close>. The pass can still be left, by one way
  only: a later request of the same response whose result cannot be encoded. When the
  later requests run to the end, the pass is followed by a further pass of the loop with
  that message in the conversation, and unless the ceiling ends the run there, that pass
  calls the endpoint with that conversation.
\<close>

theorem tool_failure_folded:
  assumes "r_reason st \<noteq> ''stop''" and "r_loopCount st + 1 \<le> MaxLoops (config a)"
    and "callAPI a (r_messages st) (r_env st) = (Inr resp, e)"
    and "Choices resp = choice # rest"
    and "apiChoice.FinishReason choice = ''tool_calls''"
    and "ToolCalls (Message choice) = before @ toolCall # after"
    and "runToolCalls marshal a before
              (r_messages st @ [AssistantToolCalls (ToolCalls (Message choice))]) (world e)
            = (None, msgs1, w1)"
    and "tools a (apiFunctionCall.Name (Function toolCall)) = None
            \<and> err = ''tool not found: '' @ apiFunctionCall.Name (Function toolCall) \<and> w2 = w1
         \<or> (\<exists>tool. tools a (apiFunctionCall.Name (Function toolCall)) = Some tool
                \<and> Handler tool (Arguments (Function toolCall)) w1 = (Inl err, w2))"
  shows \<open>runToolCalls marshal a (toolCall # after) msgs1 w1
           = runToolCalls marshal a after
               (msgs1 @ [ToolResponse (''{"error": "'' @ err @ ''"}'') (apiToolCall.ID toolCall)]) w2
         \<and> (\<exists>tail. r_messages (state_of (Run_body marshal a st))
                 = msgs1 @ ToolResponse (''{"error": "'' @ err @ ''"}'') (apiToolCall.ID toolCall) # tail)
         \<and> (\<forall>ts. as_run ts = st \<longrightarrow>
               (\<exists>tail. t_messages (state_of (turn_body marshal a ts))
                  = msgs1 @ ToolResponse (''{"error": "'' @ err @ ''"}'') (apiToolCall.ID toolCall) # tail))
         \<and> (\<forall>err' st1. Run_body marshal a st = Abort err' st1 \<longrightarrow>
               (\<exists>m msgs2 w3. err' = EncodeToolResult m
                  \<and> runToolCalls marshal a after
                       (msgs1 @ [ToolResponse (''{"error": "'' @ err @ ''"}'') (apiToolCall.ID toolCall)]) w2
                     = (Some err', msgs2, w3)))
         \<and> (\<forall>msgs2 w3.
               runToolCalls marshal a after
                  (msgs1 @ [ToolResponse (''{"error": "'' @ err @ ''"}'') (apiToolCall.ID toolCall)]) w2
                = (None, msgs2, w3) \<longrightarrow>
               (\<exists>st1. Run_body marshal a st = Next st1 \<and> Run_loop marshal a st = Run_loop marshal a st1
                  \<and> r_messages st1 = msgs2
                  \<and> (\<exists>tail. msgs2 = msgs1 @ ToolResponse (''{"error": "'' @ err @ ''"}'') (apiToolCall.ID toolCall) # tail)
                  \<and> (r_loopCount st + 2 \<le> MaxLoops (config a) \<longrightarrow>
                       (\<exists>r more. new_calls (r_env st1) (r_env (snd (Run_loop marshal a st1))) = (msgs2, r) # more))
                  \<and> (\<forall>ts. as_run ts = st \<longrightarrow>
                       (\<exists>ts1. turn_body marshal a ts = Next ts1 \<and> as_run ts1 = st1
                           \<and> turn_loop marshal a ts = turn_loop marshal a ts1))))\<close>
proof -
  let ?p = "ToolResponse (errorPayload err) (apiToolCall.ID toolCall)"
  note fails = executeTool_fails [OF assms(8)]
  have goes_on: "runToolCalls marshal a (toolCall # after) msgs1 w1
                   = runToolCalls marshal a after (msgs1 @ [?p]) w2"
    by (rule runToolCalls_failure [OF fails])
  obtain out msgs2 w3 where rest: "runToolCalls marshal a after (msgs1 @ [?p]) w2 = (out, msgs2, w3)"
    by (cases "runToolCalls marshal a after (msgs1 @ [?p]) w2")
  define st2 where "st2 = st\<lparr>r_loopCount := r_loopCount st + 1, r_env := e\<lparr>world := w3\<rparr>,
                     r_lastResponse := Some resp, r_reason := ''tool_calls'',
                     r_totalUsage := addUsage (r_totalUsage st) (apiResponse.Usage resp),
                     r_messages := msgs2\<rparr>"
  note R = Run_body_failure [OF assms(2-7) fails rest]
  have body: "Run_body marshal a st = (case out of None \<Rightarrow> Next st2 | Some err' \<Rightarrow> Abort err' st2)"
    unfolding st2_def by (rule R(1))
  have tail: "\<exists>tail. msgs2 = msgs1 @ ?p # tail"
    by (rule R(2))
  have "r_messages (state_of (Run_body marshal a st)) = msgs2"
    by (simp add: body st2_def split: option.splits)
  with tail have folded: "\<exists>tail. r_messages (state_of (Run_body marshal a st)) = msgs1 @ ?p # tail"
    by simp
  have folded_turn: "\<exists>tail. t_messages (state_of (turn_body marshal a ts)) = msgs1 @ ?p # tail"
    if "as_run ts = st" for ts
    using that folded by (simp add: turn_body_messages_of_run)
  have left: "\<exists>m msgs2 w3. err' = EncodeToolResult m
                \<and> runToolCalls marshal a after (msgs1 @ [?p]) w2 = (Some err', msgs2, w3)"
    if "Run_body marshal a st = Abort err' st1" for err' st1
  proof -
    from that body have out: "out = Some err'" by (cases out) simp_all
    with rest have r: "runToolCalls marshal a after (msgs1 @ [?p]) w2 = (Some err', msgs2, w3)" by simp
    from runToolCalls_error [OF r] r show ?thesis by blast
  qed
  have on: "\<exists>st1. Run_body marshal a st = Next st1 \<and> Run_loop marshal a st = Run_loop marshal a st1
                  \<and> r_messages st1 = msgs2'
                  \<and> (\<exists>tail. msgs2' = msgs1 @ ?p # tail)
                  \<and> (r_loopCount st + 2 \<le> MaxLoops (config a) \<longrightarrow>
                       (\<exists>r more. new_calls (r_env st1) (r_env (snd (Run_loop marshal a st1))) = (msgs2', r) # more))
                  \<and> (\<forall>ts. as_run ts = st \<longrightarrow>
                       (\<exists>ts1. turn_body marshal a ts = Next ts1 \<and> as_run ts1 = st1
                           \<and> turn_loop marshal a ts = turn_loop marshal a ts1))"
    if ended: "runToolCalls marshal a after (msgs1 @ [?p]) w2 = (None, msgs2', w3')" for msgs2' w3'
  proof -
    from ended rest have eq: "out = None" "msgs2' = msgs2" "w3' = w3" by simp_all
    from body eq have b: "Run_body marshal a st = Next st2" by simp
    have loop: "Run_loop marshal a st = Run_loop marshal a st2"
      by (rule Run_loop_Next [OF assms(1) b])
    have msgs: "r_messages st2 = msgs2'" by (simp add: st2_def eq)
    have call: "\<exists>r more. new_calls (r_env st2) (r_env (snd (Run_loop marshal a st2))) = (msgs2', r) # more"
      if "r_loopCount st + 2 \<le> MaxLoops (config a)"
    proof -
      have "Run_loop marshal a st2 = (fst (Run_loop marshal a st2), snd (Run_loop marshal a st2))"
        by simp
      from Run_loop_first_call [OF this] that show ?thesis
        by (simp add: st2_def eq)
    qed
    have turn: "\<exists>ts1. turn_body marshal a ts = Next ts1 \<and> as_run ts1 = st2
                    \<and> turn_loop marshal a ts = turn_loop marshal a ts1"
      if "as_run ts = st" for ts
    proof -
      from that b turn_body_Next_of_run [of marshal a ts st2]
      obtain ts1 where tb: "turn_body marshal a ts = Next ts1" and ar: "as_run ts1 = st2" by auto
      from that assms(1) have "t_reason ts \<noteq> ''stop''" by auto
      from turn_loop_Next [OF this tb] tb ar show ?thesis by blast
    qed
    from tail eq have tail': "\<exists>tail. msgs2' = msgs1 @ ?p # tail" by simp
    from b loop msgs tail' call turn show ?thesis by blast
  qed
  from goes_on folded folded_turn left on show ?thesis
    unfolding errorPayload_def by blast
qed

theorem tool_failure_folded_witness:
  \<open>tools (testAgent 5 [echoTool, failTool] scriptTools) ''fail'' = Some failTool
   \<and> Handler failTool ''b'' 1 = (Inl ''boom'', 1)
   \<and> (\<exists>st1. Run_body quoted (testAgent 5 [echoTool, failTool] scriptTools)
                 (Run_init (testAgent 5 [echoTool, failTool] scriptTools) ''hi'' env0) = Next st1
          \<and> r_messages st1 =
              [RoleContent ''system'' ''sys'', RoleContent ''user'' ''hi'',
               AssistantToolCalls [request ''c1'' ''echo'' ''a'', request ''c2'' ''fail'' ''b'',
                                   request ''c3'' ''nope'' ''c''],
               ToolResponse (CHR 0x22 # ''a'' @ [CHR 0x22]) ''c1'',
               ToolResponse ''{"error": "boom"}'' ''c2'',
               ToolResponse ''{"error": "tool not found: nope"}'' ''c3'']
          \<and> (\<exists>r more. new_calls (r_env st1)
                 (r_env (snd (Run_loop quoted (testAgent 5 [echoTool, failTool] scriptTools) st1)))
                   = (r_messages st1, r) # more))
   \<and> tools (testAgent 5 [echoTool, chanTool] scriptUnknownChan) ''nope'' = None
   \<and> (\<exists>tail. r_messages (state_of (Run_body quoted (testAgent 5 [echoTool, chanTool] scriptUnknownChan)
                 (Run_init (testAgent 5 [echoTool, chanTool] scriptUnknownChan) ''hi'' env0)))
         = [RoleContent ''system'' ''sys'', RoleContent ''user'' ''hi'',
            AssistantToolCalls [request ''c1'' ''nope'' ''x'', request ''c2'' ''chan'' ''{}'']]
           @ ToolResponse ''{"error": "tool not found: nope"}'' ''c1'' # tail)
   \<and> (\<exists>msgs2 w3. runToolCalls quoted (testAgent 5 [echoTool, chanTool] scriptUnknownChan)
          [request ''c2'' ''chan'' ''{}'']
          [RoleContent ''system'' ''sys'', RoleContent ''user'' ''hi'',
           AssistantToolCalls [request ''c1'' ''nope'' ''x'', request ''c2'' ''chan'' ''{}''],
           ToolResponse ''{"error": "tool not found: nope"}'' ''c1''] 1
        = (Some (EncodeToolResult ''json: unsupported type: chan int''), msgs2, w3))\<close>
proof -
  let ?a = "testAgent 5 [echoTool, failTool] scriptTools"
  let ?st = "Run_init ?a ''hi'' env0"
  let ?tcs = "[request ''c1'' ''echo'' ''a'', request ''c2'' ''fail'' ''b'', request ''c3'' ''nope'' ''c'']"
  let ?resp = "reply ''tool_calls'' [] ?tcs 10"
  let ?e = "snd (callAPI ?a (r_messages ?st) (r_env ?st))"
  let ?msgs0 = "[RoleContent ''system'' ''sys'', RoleContent ''user'' ''hi'', AssistantToolCalls ?tcs]"
  let ?msgs1 = "?msgs0 @ [ToolResponse (CHR 0x22 # ''a'' @ [CHR 0x22]) ''c1'']"
  let ?msgs2 = "?msgs1 @ [ToolResponse (errorPayload ''boom'') ''c2'',
                          ToolResponse (errorPayload ''tool not found: nope'') ''c3'']"
  have h1: "r_reason ?st \<noteq> ''stop''" by (simp add: Run_init_def)
  have h2: "r_loopCount ?st + 1 \<le> MaxLoops (config ?a)"
    by (simp add: Run_init_def testAgent_def RegisterTool_def)
  have h3: "callAPI ?a (r_messages ?st) (r_env ?st) = (Inr ?resp, ?e)"
    by (simp add: callAPI_def testAgent_def RegisterTool_def scripted_def scriptTools_def
          Run_init_def env0_def)
  have h4: "Choices ?resp = hd (Choices ?resp) # []" by (simp add: reply_def)
  have h5: "apiChoice.FinishReason (hd (Choices ?resp)) = ''tool_calls''" by (simp add: reply_def)
  have h6: "ToolCalls (Message (hd (Choices ?resp)))
              = [request ''c1'' ''echo'' ''a''] @ request ''c2'' ''fail'' ''b'' # [request ''c3'' ''nope'' ''c'']"
    by (simp add: reply_def)
  have h7: "runToolCalls quoted ?a [request ''c1'' ''echo'' ''a'']
              (r_messages ?st @ [AssistantToolCalls (ToolCalls (Message (hd (Choices ?resp))))]) (world ?e)
            = (None, ?msgs1, 1)"
    by code_simp
  have h8a: "tools ?a ''fail'' = Some failTool"
    by (simp add: testAgent_def RegisterTool_def failTool_def echoTool_def)
  have h8b: "Handler failTool ''b'' 1 = (Inl ''boom'', 1)" by (simp add: failTool_def)
  have h8: "tools ?a (apiFunctionCall.Name (Function (request ''c2'' ''fail'' ''b''))) = None
            \<and> ''boom'' = ''tool not found: '' @ apiFunctionCall.Name (Function (request ''c2'' ''fail'' ''b''))
            \<and> (1::nat) = 1
         \<or> (\<exists>tool. tools ?a (apiFunctionCall.Name (Function (request ''c2'' ''fail'' ''b''))) = Some tool
                \<and> Handler tool (Arguments (Function (request ''c2'' ''fail'' ''b''))) 1 = (Inl ''boom'', 1))"
    using h8a h8b by (simp add: request_def)
  have h9: "runToolCalls quoted ?a [request ''c3'' ''nope'' ''c'']
              (?msgs1 @ [ToolResponse (errorPayload ''boom'') (apiToolCall.ID (request ''c2'' ''fail'' ''b''))]) 1
            = (None, ?msgs2, 1)"
    by code_simp
  have h10: "r_loopCount ?st + 2 \<le> MaxLoops (config ?a)"
    by (simp add: Run_init_def testAgent_def RegisterTool_def)
  note T = tool_failure_folded [where marshal = quoted, OF h1 h2 h3 h4 h5 h6 h7 h8]
  from T h9 h10 obtain st1 where
    "Run_body quoted ?a ?st = Next st1" "r_messages st1 = ?msgs2"
    "\<exists>r more. new_calls (r_env st1) (r_env (snd (Run_loop quoted ?a st1))) = (?msgs2, r) # more"
    unfolding errorPayload_def by blast
  then have first: "\<exists>st1. Run_body quoted ?a ?st = Next st1
          \<and> r_messages st1 =
              [RoleContent ''system'' ''sys'', RoleContent ''user'' ''hi'',
               AssistantToolCalls ?tcs,
               ToolResponse (CHR 0x22 # ''a'' @ [CHR 0x22]) ''c1'',
               ToolResponse (errorPayload ''boom'') ''c2'',
               ToolResponse (errorPayload ''tool not found: nope'') ''c3'']
          \<and> (\<exists>r more. new_calls (r_env st1) (r_env (snd (Run_loop quoted ?a st1)))
                   = (r_messages st1, r) # more)"
    by auto
  let ?b = "testAgent 5 [echoTool, chanTool] scriptUnknownChan"
  let ?sb = "Run_init ?b ''hi'' env0"
  let ?tcb = "[request ''c1'' ''nope'' ''x'', request ''c2'' ''chan'' ''{}'']"
  let ?rb = "reply ''tool_calls'' [] ?tcb 5"
  let ?eb = "snd (callAPI ?b (r_messages ?sb) (r_env ?sb))"
  let ?mb = "[RoleContent ''system'' ''sys'', RoleContent ''user'' ''hi'', AssistantToolCalls ?tcb]"
  have g1: "r_reason ?sb \<noteq> ''stop''" by (simp add: Run_init_def)
  have g2: "r_loopCount ?sb + 1 \<le> MaxLoops (config ?b)"
    by (simp add: Run_init_def testAgent_def RegisterTool_def)
  have g3: "callAPI ?b (r_messages ?sb) (r_env ?sb) = (Inr ?rb, ?eb)"
    by (simp add: callAPI_def testAgent_def RegisterTool_def scripted_def scriptUnknownChan_def
          Run_init_def env0_def)
  have g4: "Choices ?rb = hd (Choices ?rb) # []" by (simp add: reply_def)
  have g5: "apiChoice.FinishReason (hd (Choices ?rb)) = ''tool_calls''" by (simp add: reply_def)
  have g6: "ToolCalls (Message (hd (Choices ?rb)))
              = [] @ request ''c1'' ''nope'' ''x'' # [request ''c2'' ''chan'' ''{}'']"
    by (simp add: reply_def)
  have g7: "runToolCalls quoted ?b []
              (r_messages ?sb @ [AssistantToolCalls (ToolCalls (Message (hd (Choices ?rb))))]) (world ?eb)
            = (None, ?mb, 1)"
    by code_simp
  have g8a: "tools ?b ''nope'' = None"
    by (simp add: testAgent_def RegisterTool_def chanTool_def echoTool_def)
  have g8: "tools ?b (apiFunctionCall.Name (Function (request ''c1'' ''nope'' ''x''))) = None
            \<and> ''tool not found: nope'' = ''tool not found: '' @ apiFunctionCall.Name (Function (request ''c1'' ''nope'' ''x''))
            \<and> (1::nat) = 1
         \<or> (\<exists>tool. tools ?b (apiFunctionCall.Name (Function (request ''c1'' ''nope'' ''x''))) = Some tool
                \<and> Handler tool (Arguments (Function (request ''c1'' ''nope'' ''x''))) 1 = (Inl ''tool not found: nope'', 1))"
    using g8a by (simp add: request_def)
  have g9: "Run_body quoted ?b ?sb
              = Abort (EncodeToolResult ''json: unsupported type: chan int'') (state_of (Run_body quoted ?b ?sb))"
    by code_simp
  have id1: "apiToolCall.ID (request ''c1'' ''nope'' ''x'') = ''c1''" by (simp add: request_def)
  note U = tool_failure_folded [where marshal = quoted, OF g1 g2 g3 g4 g5 g6 g7 g8]
  from U have second: "\<exists>tail. r_messages (state_of (Run_body quoted ?b ?sb))
         = ?mb @ ToolResponse (errorPayload ''tool not found: nope'') ''c1'' # tail"
    unfolding errorPayload_def id1 by blast
  from U g9 have third: "\<exists>msgs2 w3. runToolCalls quoted ?b [request ''c2'' ''chan'' ''{}'']
          (?mb @ [ToolResponse (errorPayload ''tool not found: nope'') ''c1'']) 1
        = (Some (EncodeToolResult ''json: unsupported type: chan int''), msgs2, w3)"
    unfolding errorPayload_def id1 by blast
  from h8a h8b first g8a second third show ?thesis
    unfolding errorPayload_def by simp
qed

text \<open>
  As stated the claim fails: the response asks for an unknown tool and then for a tool
  whose result cannot be encoded. The error of the unknown tool is folded into the
  conversation, and then \<open>Run\<close> is left with the encoding error, far below the ceiling
  of 5: the endpoint has been called once and is not called again.
\<close>

theorem tool_failure_folded_counterexample:
  \<open>tools (testAgent 5 [echoTool, chanTool] scriptUnknownChan) ''nope'' = None
   \<and> MaxLoops (config (testAgent 5 [echoTool, chanTool] scriptUnknownChan)) = 5
   \<and> r_messages (snd (Run_loop quoted (testAgent 5 [echoTool, chanTool] scriptUnknownChan)
                      (Run_init (testAgent 5 [echoTool, chanTool] scriptUnknownChan) ''hi'' env0)))
     = [RoleContent ''system'' ''sys'', RoleContent ''user'' ''hi'',
        AssistantToolCalls [request ''c1'' ''nope'' ''x'', request ''c2'' ''chan'' ''{}''],
        ToolResponse ''{"error": "tool not found: nope"}'' ''c1'']
   \<and> map fst (calls (snd (Run quoted (testAgent 5 [echoTool, chanTool] scriptUnknownChan) ''hi'' env0)))
     = [[RoleContent ''system'' ''sys'', RoleContent ''user'' ''hi'']]
   \<and> fst (Run quoted (testAgent 5 [echoTool, chanTool] scriptUnknownChan) ''hi'' env0)
     = Inl (EncodeToolResult ''json: unsupported type: chan int'')\<close>
  by code_simp

section \<open>A tool result that cannot be encoded\<close>








lemma as_run_turn_init:
  "as_run (turn_init (s\<lparr>messages := [RoleContent ''system'' (SystemPrompt (config a)), RoleContent ''user'' prompt],
                        totalUsage := zeroUsage, loopCount := 0\<rparr>) e) = Run_init a prompt e"
  by (simp add: as_run_def turn_init_def Run_init_def)


section \<open>Leaving the loop\<close>

lemma turn_loop_exit: "turn_loop marshal a ts = (None, ts') \<Longrightarrow> t_reason ts' = ''stop''"
  by (induction ts "None :: error option" ts' rule: turn_loop_induct) simp_all

text \<open>
  C6. Take an iteration whose response carries an indicator other than \<open>tool_calls\<close>.
  The pass appends no message and runs no tool: the conversation is as before, and
  nothing has happened to the world but the call of the endpoint. If the indicator is
  \<open>stop\<close> the loop is left normally; if it is anything else (\<open>length\<close>, the empty
  string, ...) the result of the loop is that of a further pass of its body. The loop
  of \<open>runTurn\<close> does the same, and with a live context sends no event but the start of
  the iteration. Whenever either loop is left normally, the indicator is \<open>stop\<close>.
\<close>

theorem other_indicator_continues:
  assumes "r_reason st \<noteq> ''stop''" and "r_loopCount st + 1 \<le> MaxLoops (config a)"
    and "callAPI a (r_messages st) (r_env st) = (Inr resp, e)"
    and "Choices resp = choice # rest"
    and "apiChoice.FinishReason choice \<noteq> ''tool_calls''"
  shows "\<exists>st1. Run_body marshal a st = Next st1
           \<and> r_messages st1 = r_messages st \<and> r_env st1 = e
           \<and> r_reason st1 = apiChoice.FinishReason choice
           \<and> (apiChoice.FinishReason choice = ''stop'' \<longrightarrow> Run_loop marshal a st = (None, st1))
           \<and> (apiChoice.FinishReason choice \<noteq> ''stop'' \<longrightarrow>
                 Run_loop marshal a st =
                   (case Run_body marshal a st1 of
                      Next st2 \<Rightarrow> Run_loop marshal a st2
                    | Abort err st2 \<Rightarrow> (Some err, st2)))
           \<and> (\<forall>ts. as_run ts = st \<longrightarrow>
                 (\<exists>ts1. turn_body marshal a ts = Next ts1 \<and> as_run ts1 = st1
                    \<and> (apiChoice.FinishReason choice = ''stop'' \<longrightarrow> turn_loop marshal a ts = (None, ts1))
                    \<and> (apiChoice.FinishReason choice \<noteq> ''stop'' \<longrightarrow>
                          turn_loop marshal a ts =
                            (case turn_body marshal a ts1 of
                               Next ts2 \<Rightarrow> turn_loop marshal a ts2
                             | Abort err ts2 \<Rightarrow> (Some err, ts2)))
                    \<and> (\<not> ctx_done (t_session ts) \<longrightarrow>
                          Events (t_session ts1)
                            = Events (t_session ts) @ [startEvent (loopCount (t_session ts) + 1)])))
           \<and> (\<forall>st0 st'. Run_loop marshal a st0 = (None, st') \<longrightarrow> r_reason st' = ''stop'')
           \<and> (\<forall>ts0 ts'. turn_loop marshal a ts0 = (None, ts') \<longrightarrow> t_reason ts' = ''stop'')"
proof -
  define st1 where "st1 = st\<lparr>r_loopCount := r_loopCount st + 1, r_env := e, r_lastResponse := Some resp,
                r_reason := apiChoice.FinishReason choice,
                r_totalUsage := addUsage (r_totalUsage st) (apiResponse.Usage resp)\<rparr>"
  have body: "Run_body marshal a st = Next st1"
    unfolding st1_def by (rule Run_body_other [OF assms(2-5)])
  have f: "r_messages st1 = r_messages st" "r_env st1 = e" "r_reason st1 = apiChoice.FinishReason choice"
    by (simp_all add: st1_def)
  note loop = Run_loop_Next [OF assms(1) body]
  have stop: "Run_loop marshal a st = (None, st1)" if "apiChoice.FinishReason choice = ''stop''"
    using that loop f by (simp add: Run_loop_stop)
  have go: "Run_loop marshal a st =
                   (case Run_body marshal a st1 of
                      Next st2 \<Rightarrow> Run_loop marshal a st2
                    | Abort err st2 \<Rightarrow> (Some err, st2))"
    if "apiChoice.FinishReason choice \<noteq> ''stop''"
    unfolding loop using that f by (subst Run_loop.simps) simp
  have turn: "\<exists>ts1. turn_body marshal a ts = Next ts1 \<and> as_run ts1 = st1
                    \<and> (apiChoice.FinishReason choice = ''stop'' \<longrightarrow> turn_loop marshal a ts = (None, ts1))
                    \<and> (apiChoice.FinishReason choice \<noteq> ''stop'' \<longrightarrow>
                          turn_loop marshal a ts =
                            (case turn_body marshal a ts1 of
                               Next ts2 \<Rightarrow> turn_loop marshal a ts2
                             | Abort err ts2 \<Rightarrow> (Some err, ts2)))
                    \<and> (\<not> ctx_done (t_session ts) \<longrightarrow>
                          Events (t_session ts1)
                            = Events (t_session ts) @ [startEvent (loopCount (t_session ts) + 1)])"
    if ts: "as_run ts = st" for ts
  proof -
    define ts1 where "ts1 = ts\<lparr>turnLoopCount := turnLoopCount ts + 1,
                t_session := (sendEvent ((t_session ts)\<lparr>loopCount := loopCount (t_session ts) + 1\<rparr>)
                               (startEvent (loopCount (t_session ts) + 1)))
                             \<lparr>totalUsage := addUsage (totalUsage (t_session ts)) (apiResponse.Usage resp)\<rparr>,
                t_env := e, t_lastResponse := Some resp,
                t_reason := apiChoice.FinishReason choice\<rparr>"
    from ts assms(1-3) have h: "t_reason ts \<noteq> ''stop''"
      "loopCount (t_session ts) + 1 \<le> MaxLoops (config a)"
      "callAPI a (t_messages ts) (t_env ts) = (Inr resp, e)"
      by auto
    have b: "turn_body marshal a ts = Next ts1"
      unfolding ts1_def by (rule turn_body_other [OF h(2,3) assms(4,5)])
    from turn_body_Next_run [OF b] body ts have a: "as_run ts1 = st1" by simp
    have r: "t_reason ts1 = apiChoice.FinishReason choice" by (simp add: ts1_def)
    note l = turn_loop_Next [OF h(1) b]
    have 1: "turn_loop marshal a ts = (None, ts1)" if "apiChoice.FinishReason choice = ''stop''"
      using that l r by (simp add: turn_loop_stop)
    have 2: "turn_loop marshal a ts =
                            (case turn_body marshal a ts1 of
                               Next ts2 \<Rightarrow> turn_loop marshal a ts2
                             | Abort err ts2 \<Rightarrow> (Some err, ts2))"
      if "apiChoice.FinishReason choice \<noteq> ''stop''"
      unfolding l using that r by (subst turn_loop.simps) simp
    have 3: "Events (t_session ts1) = Events (t_session ts) @ [startEvent (loopCount (t_session ts) + 1)]"
      if "\<not> ctx_done (t_session ts)"
      using that by (simp add: ts1_def Events_def sendEvent_def)
    from b a 1 2 3 show ?thesis by blast
  qed
  have "\<forall>st0 st'. Run_loop marshal a st0 = (None, st') \<longrightarrow> r_reason st' = ''stop''"
    by (blast dest: Run_loop_exit)
  moreover have "\<forall>ts0 ts'. turn_loop marshal a ts0 = (None, ts') \<longrightarrow> t_reason ts' = ''stop''"
    by (blast dest: turn_loop_exit)
  ultimately show ?thesis using body f stop go turn by blast
qed

theorem other_indicator_continues_witness:
  "apiChoice.FinishReason (hd (Choices (reply ''length'' ''cut'' [] 5))) \<noteq> ''tool_calls''
   \<and> apiChoice.FinishReason (hd (Choices (reply ''length'' ''cut'' [] 5))) \<noteq> ''stop''
   \<and> (\<exists>st1. Run_body quoted (testAgent 5 [echoTool] scriptLength)
                 (Run_init (testAgent 5 [echoTool] scriptLength) ''hi'' env0) = Next st1
          \<and> r_messages st1 = [RoleContent ''system'' ''sys'', RoleContent ''user'' ''hi'']
          \<and> r_reason st1 = ''length''
          \<and> Run_loop quoted (testAgent 5 [echoTool] scriptLength)
               (Run_init (testAgent 5 [echoTool] scriptLength) ''hi'' env0)
             = (case Run_body quoted (testAgent 5 [echoTool] scriptLength) st1 of
                  Next st2 \<Rightarrow> Run_loop quoted (testAgent 5 [echoTool] scriptLength) st2
                | Abort err st2 \<Rightarrow> (Some err, st2)))
   \<and> LoopCount (projr (fst (Run quoted (testAgent 5 [echoTool] scriptLength) ''hi'' env0))) = 2"
proof -
  let ?a = "testAgent 5 [echoTool] scriptLength"
  let ?st = "Run_init ?a ''hi'' env0"
  let ?resp = "reply ''length'' ''cut'' [] 5"
  let ?e = "snd (callAPI ?a (r_messages ?st) (r_env ?st))"
  have h1: "r_reason ?st \<noteq> ''stop''" by (simp add: Run_init_def)
  have h2: "r_loopCount ?st + 1 \<le> MaxLoops (config ?a)"
    by (simp add: Run_init_def testAgent_def RegisterTool_def)
  have h3: "callAPI ?a (r_messages ?st) (r_env ?st) = (Inr ?resp, ?e)"
    by (simp add: callAPI_def testAgent_def RegisterTool_def scripted_def scriptLength_def
          Run_init_def env0_def)
  have h4: "Choices ?resp = hd (Choices ?resp) # []" by (simp add: reply_def)
  have h5: "apiChoice.FinishReason (hd (Choices ?resp)) \<noteq> ''tool_calls''" by (simp add: reply_def)
  have h6: "apiChoice.FinishReason (hd (Choices ?resp)) \<noteq> ''stop''" by (simp add: reply_def)
  have f: "apiChoice.FinishReason (hd (Choices ?resp)) = ''length''" by (simp add: reply_def)
  have m: "r_messages ?st = [RoleContent ''system'' ''sys'', RoleContent ''user'' ''hi'']"
    by (simp add: Run_init_def testAgent_def RegisterTool_def)
  have n: "LoopCount (projr (fst (Run quoted ?a ''hi'' env0))) = 2"
    by code_simp
  from other_indicator_continues [where marshal = quoted, OF h1 h2 h3 h4 h5] h6 obtain st1 where
    "Run_body quoted ?a ?st = Next st1" "r_messages st1 = r_messages ?st"
    "r_reason st1 = apiChoice.FinishReason (hd (Choices ?resp))"
    "Run_loop quoted ?a ?st = (case Run_body quoted ?a st1 of
                  Next st2 \<Rightarrow> Run_loop quoted ?a st2
                | Abort err st2 \<Rightarrow> (Some err, st2))"
    by blast
  then have "\<exists>st1. Run_body quoted ?a ?st = Next st1
          \<and> r_messages st1 = [RoleContent ''system'' ''sys'', RoleContent ''user'' ''hi'']
          \<and> r_reason st1 = ''length''
          \<and> Run_loop quoted ?a ?st
             = (case Run_body quoted ?a st1 of
                  Next st2 \<Rightarrow> Run_loop quoted ?a st2
                | Abort err st2 \<Rightarrow> (Some err, st2))"
    unfolding m f by blast
  with h5 h6 n show ?thesis by (intro conjI)
qed

section \<open>The first choice is read without a guard\<close>

lemma Run_loop_errors:
  "Run_loop marshal a st = (out, st') \<Longrightarrow> out \<noteq> Some NoResponseFromAPI \<and> out \<noteq> Some PanicNilDereference"
proof (induction rule: Run_loop_induct)
  case (abort st err st1)
  from abort(2) show ?case by (cases rule: Run_body_AbortE) simp_all
qed simp_all

lemma Run_never_no_response:
  "fst (Run marshal a prompt e) \<noteq> Inl NoResponseFromAPI
   \<and> fst (Run marshal a prompt e) \<noteq> Inl PanicNilDereference"
proof -
  obtain out st' where loop: "Run_loop marshal a (Run_init a prompt e) = (out, st')"
    by (cases "Run_loop marshal a (Run_init a prompt e)")
  have init: "r_reason (Run_init a prompt e) \<noteq> ''stop''"
    by (simp add: Run_init_def)
  show ?thesis
  proof (cases out)
    case None
    from Run_loop_lastResponse [OF loop [unfolded None] init] show ?thesis
      by (auto simp: Run_def loop None Run_result_def)
  next
    case (Some err)
    with Run_loop_errors [OF loop] show ?thesis
      by (auto simp: Run_def loop Run_result_def)
  qed
qed

lemma turn_result_error:
  "fst (turn_result (Some err, ts)) = Some err"
  by (simp add: turn_result_def)

lemma runTurn_never_no_response:
  "fst (runTurn marshal a s e) \<noteq> Some NoResponseFromAPI"
proof -
  obtain out ts' where loop: "turn_loop marshal a (turn_init s e) = (out, ts')"
    by (cases "turn_loop marshal a (turn_init s e)")
  have init: "r_reason (as_run (turn_init s e)) \<noteq> ''stop''"
    by (simp add: turn_init_def)
  note run = turn_loop_simulates [OF loop]
  show ?thesis
  proof (cases out)
    case None
    from Run_loop_lastResponse [OF run [unfolded None] init] show ?thesis
      by (auto simp: runTurn_def loop None turn_result_def Let_def)
  next
    case (Some err)
    with Run_loop_errors [OF run] show ?thesis
      by (auto simp: runTurn_def loop turn_result_def Let_def)
  qed
qed

text \<open>
  C4. When the endpoint answers with a response that has no choices, the loop reads
  \<open>resp.Choices[0]\<close> all the same, which is the index-out-of-range panic, in \<open>Run\<close> and
  in a turn of a session alike. So the loop is never left normally without a last
  response that has a first choice, and the branch after the loop that reports
  \<open>no response from API\<close> is never taken, in \<open>Run\<close> (where the last response is not
  \<open>nil\<close> either) nor in \<open>runTurn\<close>.
\<close>

theorem first_choice_unguarded:
  "(r_reason st \<noteq> ''stop'' \<and> r_loopCount st + 1 \<le> MaxLoops (config a)
      \<and> callAPI a (r_messages st) (r_env st) = (Inr resp, e1) \<and> Choices resp = []
     \<longrightarrow> Run_result (Run_loop marshal a st) = (Inl PanicIndexOutOfRange, e1)
         \<and> (\<forall>ts. as_run ts = st \<longrightarrow>
               fst (turn_result (turn_loop marshal a ts)) = Some PanicIndexOutOfRange))
   \<and> fst (Run marshal a prompt e) \<noteq> Inl NoResponseFromAPI
   \<and> fst (Run marshal a prompt e) \<noteq> Inl PanicNilDereference
   \<and> fst (runTurn marshal a s e) \<noteq> Some NoResponseFromAPI"
proof -
  have "Run_result (Run_loop marshal a st) = (Inl PanicIndexOutOfRange, e1)
         \<and> (\<forall>ts. as_run ts = st \<longrightarrow>
               fst (turn_result (turn_loop marshal a ts)) = Some PanicIndexOutOfRange)"
    if h: "r_reason st \<noteq> ''stop''" "r_loopCount st + 1 \<le> MaxLoops (config a)"
      "callAPI a (r_messages st) (r_env st) = (Inr resp, e1)" "Choices resp = []"
  proof
    note body = Run_body_no_choice [OF h(2,3,4)]
    from Run_loop_Abort [OF h(1) body]
    show "Run_result (Run_loop marshal a st) = (Inl PanicIndexOutOfRange, e1)"
      by (simp add: Run_result_def)
    show "\<forall>ts. as_run ts = st \<longrightarrow>
               fst (turn_result (turn_loop marshal a ts)) = Some PanicIndexOutOfRange"
    proof (intro allI impI)
      fix ts :: "'a turn_state" assume ts: "as_run ts = st"
      with body turn_body_Abort_of_run [of marshal a ts PanicIndexOutOfRange]
      obtain ts1 where b: "turn_body marshal a ts = Abort PanicIndexOutOfRange ts1" by auto
      from ts h(1) have "t_reason ts \<noteq> ''stop''" by auto
      from turn_loop_Abort [OF this b]
      show "fst (turn_result (turn_loop marshal a ts)) = Some PanicIndexOutOfRange"
        by (simp add: turn_result_error)
    qed
  qed
  with Run_never_no_response [of marshal a prompt e] runTurn_never_no_response [of marshal a s e]
  show ?thesis by blast
qed

theorem first_choice_unguarded_witness:
  "Choices (projr (fst (scripted scriptNoChoice [] 0))) = []
   \<and> fst (Run quoted (testAgent 5 [echoTool] scriptNoChoice) ''hi'' env0) = Inl PanicIndexOutOfRange
   \<and> fst (SendTurn quoted (testAgent 5 [echoTool] scriptNoChoice)
             (NewSession (testAgent 5 [echoTool] scriptNoChoice) False pickSend) ''hi'' env0)
       = Some PanicIndexOutOfRange"
proof -
  let ?a = "testAgent 5 [echoTool] scriptNoChoice"
  let ?st = "Run_init ?a ''hi'' env0"
  let ?resp = "\<lparr>apiResponse.ID = ''r'', Choices = [], apiResponse.Usage = zeroUsage\<rparr>"
  let ?e = "snd (callAPI ?a (r_messages ?st) (r_env ?st))"
  let ?s1 = "(NewSession ?a False pickSend)\<lparr>messages := messages (NewSession ?a False pickSend) @ [RoleContent ''user'' ''hi'']\<rparr>"
  let ?ts = "turn_init ?s1 env0"
  have h1: "r_reason ?st \<noteq> ''stop''" by (simp add: Run_init_def)
  have h2: "r_loopCount ?st + 1 \<le> MaxLoops (config ?a)"
    by (simp add: Run_init_def testAgent_def RegisterTool_def)
  have h3: "callAPI ?a (r_messages ?st) (r_env ?st) = (Inr ?resp, ?e)"
    by (simp add: callAPI_def testAgent_def RegisterTool_def scripted_def scriptNoChoice_def
          Run_init_def env0_def)
  have h4: "Choices ?resp = []" by simp
  have h0: "Choices (projr (fst (scripted scriptNoChoice [] 0))) = []"
    by (simp add: scripted_def scriptNoChoice_def)
  have ts: "as_run ?ts = ?st"
    by (simp add: as_run_def turn_init_def Run_init_def NewSession_def)
  have send: "SendTurn quoted ?a (NewSession ?a False pickSend) ''hi'' env0 = turn_result (turn_loop quoted ?a ?ts)"
    by (simp add: SendTurn_def Send_def runTurn_def NewSession_def)
  note T = first_choice_unguarded [where marshal = quoted and st = ?st and a = ?a and resp = ?resp
      and ?e1.0 = ?e, THEN conjunct1, rule_format, OF conjI [OF h1 conjI [OF h2 conjI [OF h3 h4]]]]
  from T [THEN conjunct1] have "fst (Run quoted ?a ''hi'' env0) = Inl PanicIndexOutOfRange"
    by (simp add: Run_def)
  moreover from T [THEN conjunct2, rule_format, OF ts] send
  have "fst (SendTurn quoted ?a (NewSession ?a False pickSend) ''hi'' env0) = Some PanicIndexOutOfRange"
    by simp
  ultimately show ?thesis using h0 by (intro conjI)
qed

section \<open>The iteration counter of a session\<close>



lemma turn_loop_limit:
  assumes "t_reason ts \<noteq> ''stop''" and "MaxLoops (config a) \<le> loopCount (t_session ts)"
  shows "turn_loop marshal a ts =
           (Some (IterationLimitExceeded (MaxLoops (config a))),
            ts\<lparr>turnLoopCount := turnLoopCount ts + 1,
               t_session := sendEvent ((t_session ts)\<lparr>loopCount := loopCount (t_session ts) + 1\<rparr>)
                              (errorEvent (IterationLimitExceeded (MaxLoops (config a)))
                                 (loopCount (t_session ts) + 1))\<rparr>)"
proof -
  from assms(2) have "MaxLoops (config a) < loopCount (t_session ts) + 1" by simp
  from turn_loop_Abort [OF assms(1) turn_body_limit [OF this]] show ?thesis .
qed




text \<open>
  With a cancelled context and the channel still open, the error event is sent or not,
  as the runtime picks.
\<close>

lemma turn_limit_cancelled:
  assumes "MaxLoops (config a) \<le> loopCount s" and "ctx_done s" and "\<not> is_closed (events s)"
  shows "Events (fst (snd (runTurn marshal a s e)))
           = (if picks s 0
              then Events s @ [errorEvent (IterationLimitExceeded (MaxLoops (config a))) (loopCount s + 1)]
              else Events s)"
proof -
  from assms(1) have "turn_loop marshal a (turn_init s e) =
           (Some (IterationLimitExceeded (MaxLoops (config a))),
            (turn_init s e)\<lparr>turnLoopCount := turnLoopCount (turn_init s e) + 1,
               t_session := sendEvent ((t_session (turn_init s e))\<lparr>loopCount := loopCount (t_session (turn_init s e)) + 1\<rparr>)
                              (errorEvent (IterationLimitExceeded (MaxLoops (config a)))
                                 (loopCount (t_session (turn_init s e)) + 1))\<rparr>)"
    by (intro turn_loop_limit) (simp_all add: turn_init_def)
  with assms(2) show ?thesis
    by (simp add: runTurn_def turn_result_def turn_init_def Events_def sendEvent_cancelled)
qed


section \<open>Three echo calls and a stop\<close>

text \<open>A pass of \<open>runTurn\<close>'s loop touches nothing of the session but counter, totals and events.\<close>

lemma turn_body_session:
  "messages (t_session (state_of (turn_body marshal a ts))) = messages (t_session ts)
   \<and> closed (t_session (state_of (turn_body marshal a ts))) = closed (t_session ts)
   \<and> ctx_done (t_session (state_of (turn_body marshal a ts))) = ctx_done (t_session ts)
   \<and> input (t_session (state_of (turn_body marshal a ts))) = input (t_session ts)
   \<and> is_closed (events (t_session (state_of (turn_body marshal a ts)))) = is_closed (events (t_session ts))"
proof (cases "loopCount (t_session ts) + 1 \<le> MaxLoops (config a)")
  case False
  then show ?thesis by (simp add: turn_body_limit)
next
  case le: True
  obtain r e where c: "callAPI a (t_messages ts) (t_env ts) = (r, e)"
    by (cases "callAPI a (t_messages ts) (t_env ts)")
  show ?thesis
  proof (cases r)
    case (Inl m)
    from turn_body_api_error [OF le c [unfolded Inl]] show ?thesis by simp
  next
    case (Inr resp)
    note c = c [unfolded Inr]
    show ?thesis
    proof (cases "Choices resp")
      case Nil
      from turn_body_no_choice [OF le c Nil] show ?thesis by simp
    next
      case (Cons choice rest)
      show ?thesis
      proof (cases "apiChoice.FinishReason choice = ''tool_calls''")
        case False
        from turn_body_other [OF le c Cons False] show ?thesis by simp
      next
        case True
        obtain out s msgs w where t: "turnToolCalls marshal a (ToolCalls (Message choice))
          ((sendEvent ((t_session ts)\<lparr>loopCount := loopCount (t_session ts) + 1\<rparr>)
               (startEvent (loopCount (t_session ts) + 1)))
             \<lparr>totalUsage := addUsage (totalUsage (t_session ts)) (apiResponse.Usage resp)\<rparr>)
          (t_messages ts @ [AssistantToolCalls (ToolCalls (Message choice))]) (world e) = (out, s, msgs, w)"
          by (metis prod_cases4)
        from turnToolCalls_session [OF t] turn_body_tools [OF le c Cons True t] show ?thesis
          by (cases out) (simp_all add: Let_def)
      qed
    qed
  qed
qed

lemma turn_loop_session:
  "turn_loop marshal a ts = (out, ts') \<Longrightarrow>
     messages (t_session ts') = messages (t_session ts)
     \<and> closed (t_session ts') = closed (t_session ts)
     \<and> ctx_done (t_session ts') = ctx_done (t_session ts)
     \<and> input (t_session ts') = input (t_session ts)
     \<and> is_closed (events (t_session ts')) = is_closed (events (t_session ts))"
proof (induction rule: turn_loop_induct)
  case (stop ts)
  then show ?case by simp
next
  case (abort ts err ts1)
  with turn_body_session [of marshal a ts] show ?case by simp
next
  case (step ts ts1 out ts')
  with turn_body_session [of marshal a ts] show ?case by simp
qed

text \<open>
  A turn that \<open>Send\<close> launches finds the events channel open and leaves it open: in a
  turn that no other thread overtakes, no event is sent on a closed channel.
\<close>

lemma Send_events_open:
  assumes "session_ok s" and "Send s m = Inr s1"
    and "turn_loop marshal a (turn_init s1 e) = (out, ts')"
  shows "\<not> is_closed (events s1) \<and> \<not> is_closed (events (t_session ts'))"
proof -
  from assms(2) have "\<not> closed s" and s1: "s1 = s\<lparr>messages := messages s @ [RoleContent ''user'' m]\<rparr>"
    by (auto simp: Send_def split: if_splits)
  with assms(1) have "\<not> is_closed (events s1)" by (simp add: session_ok_def)
  moreover from turn_loop_session [OF assms(3)]
  have "is_closed (events (t_session ts')) = is_closed (events s1)" by (simp add: turn_init_def)
  ultimately show ?thesis by simp
qed

text \<open>The operations on a session keep it as the package produces it.\<close>

lemma session_ok_runTurn:
  assumes "runTurn marshal a s e = (r, s', e')" and "session_ok s"
  shows "session_ok s' \<and> closed s' = closed s"
proof -
  obtain out ts' where loop: "turn_loop marshal a (turn_init s e) = (out, ts')"
    by (cases "turn_loop marshal a (turn_init s e)")
  from turn_loop_session [OF loop] have
    "closed (t_session ts') = closed s" "ctx_done (t_session ts') = ctx_done s"
    "input (t_session ts') = input s" "is_closed (events (t_session ts')) = is_closed (events s)"
    by (simp_all add: turn_init_def)
  with assms loop show ?thesis
    by (auto simp: runTurn_def turn_result_def Let_def session_ok_def
          split: option.splits list.splits)
qed

lemma session_ok_SendTurn:
  assumes "SendTurn marshal a s m e = (r, s', e')" and "session_ok s"
  shows "session_ok s'"
proof (cases "closed s")
  case True
  with assms show ?thesis by (simp add: SendTurn_def Send_def)
next
  case False
  with assms(1) have "runTurn marshal a (s\<lparr>messages := messages s @ [RoleContent ''user'' m]\<rparr>) e = (r, s', e')"
    by (simp add: SendTurn_def Send_def)
  moreover from assms(2) have "session_ok (s\<lparr>messages := messages s @ [RoleContent ''user'' m]\<rparr>)"
    by (simp add: session_ok_def)
  ultimately show ?thesis by (blast dest: session_ok_runTurn)
qed

lemma session_ok_SendInput:
  "SendInput s x receiver prefer_send = Returns (r, s') \<Longrightarrow> session_ok s \<Longrightarrow> session_ok s'"
  by (auto simp: SendInput_def session_ok_def split: if_splits)

text \<open>One pass with a single request for the echo tool, and the pass that stops.\<close>

lemma echo_pass:
  assumes "client a = scripted rs" and "tools a ''echo'' = Some echoTool"
    and "world (r_env st) < length rs"
    and "rs ! world (r_env st) = Inr (reply ''tool_calls'' t [request i ''echo'' x] n)"
    and "marshal x = Inr j"
    and "r_reason st \<noteq> ''stop''" and "r_loopCount st + 1 \<le> MaxLoops (config a)"
  shows "Run_loop marshal a st =
           Run_loop marshal a
             (st\<lparr>r_loopCount := r_loopCount st + 1,
                 r_env := \<lparr>world = Suc (world (r_env st)),
                           calls = calls (r_env st)
                             @ [(r_messages st, Inr (reply ''tool_calls'' t [request i ''echo'' x] n))]\<rparr>,
                 r_lastResponse := Some (reply ''tool_calls'' t [request i ''echo'' x] n),
                 r_reason := ''tool_calls'',
                 r_totalUsage := addUsage (r_totalUsage st)
                                   (apiResponse.Usage (reply ''tool_calls'' t [request i ''echo'' x] n)),
                 r_messages := r_messages st @ [AssistantToolCalls [request i ''echo'' x], ToolResponse j i]\<rparr>)"
proof -
  let ?resp = "reply ''tool_calls'' t [request i ''echo'' x] n"
  let ?e = "\<lparr>world = Suc (world (r_env st)), calls = calls (r_env st) @ [(r_messages st, Inr ?resp)]\<rparr>"
  have api: "callAPI a (r_messages st) (r_env st) = (Inr ?resp, ?e)"
    using assms(1,3,4) by (simp add: callAPI_def scripted_def)
  have ch: "Choices ?resp = hd (Choices ?resp) # []" by (simp add: reply_def)
  have fin: "apiChoice.FinishReason (hd (Choices ?resp)) = ''tool_calls''" by (simp add: reply_def)
  have tcs: "ToolCalls (Message (hd (Choices ?resp))) = [request i ''echo'' x]" by (simp add: reply_def)
  have ex: "executeTool a ''echo'' x w = (Inr x, w)" for w
    using assms(2) by (simp add: executeTool_def echoTool_def)
  have t: "runToolCalls marshal a (ToolCalls (Message (hd (Choices ?resp))))
      (r_messages st @ [AssistantToolCalls (ToolCalls (Message (hd (Choices ?resp))))]) (world ?e)
      = (None, r_messages st @ [AssistantToolCalls [request i ''echo'' x], ToolResponse j i],
         Suc (world (r_env st)))"
    unfolding tcs using assms(5) ex by (simp add: request_def toolContent_def)
  from Run_body_tools [OF assms(7) api ch fin t]
  have "Run_body marshal a st =
      Next (st\<lparr>r_loopCount := r_loopCount st + 1, r_env := ?e,
                 r_lastResponse := Some ?resp, r_reason := ''tool_calls'',
                 r_totalUsage := addUsage (r_totalUsage st) (apiResponse.Usage ?resp),
                 r_messages := r_messages st @ [AssistantToolCalls [request i ''echo'' x], ToolResponse j i]\<rparr>)"
    by (simp add: Let_def)
  from Run_loop_Next [OF assms(6) this] show ?thesis .
qed

lemma stop_pass:
  assumes "client a = scripted rs"
    and "world (r_env st) < length rs"
    and "rs ! world (r_env st) = Inr (reply ''stop'' t tcs n)"
    and "r_reason st \<noteq> ''stop''" and "r_loopCount st + 1 \<le> MaxLoops (config a)"
  shows "Run_loop marshal a st =
           (None,
            st\<lparr>r_loopCount := r_loopCount st + 1,
                r_env := \<lparr>world = Suc (world (r_env st)),
                          calls = calls (r_env st) @ [(r_messages st, Inr (reply ''stop'' t tcs n))]\<rparr>,
                r_lastResponse := Some (reply ''stop'' t tcs n),
                r_reason := ''stop'',
                r_totalUsage := addUsage (r_totalUsage st) (apiResponse.Usage (reply ''stop'' t tcs n))\<rparr>)"
proof -
  let ?resp = "reply ''stop'' t tcs n"
  let ?e = "\<lparr>world = Suc (world (r_env st)), calls = calls (r_env st) @ [(r_messages st, Inr ?resp)]\<rparr>"
  have api: "callAPI a (r_messages st) (r_env st) = (Inr ?resp, ?e)"
    using assms(1,2,3) by (simp add: callAPI_def scripted_def)
  have ch: "Choices ?resp = hd (Choices ?resp) # []" by (simp add: reply_def)
  have fin: "apiChoice.FinishReason (hd (Choices ?resp)) \<noteq> ''tool_calls''" by (simp add: reply_def)
  have r: "apiChoice.FinishReason (hd (Choices ?resp)) = ''stop''" by (simp add: reply_def)
  note body = Run_body_other [OF assms(5) api ch fin]
  from Run_loop_Next [OF assms(4) body] show ?thesis
    by (simp add: Run_loop_stop r)
qed

lemma testAgent_echo:
  "client (testAgent k [echoTool] rs) = scripted rs"
  "tools (testAgent k [echoTool] rs) ''echo'' = Some echoTool"
  "MaxLoops (config (testAgent k [echoTool] rs)) = k"
  "SystemPrompt (config (testAgent k [echoTool] rs)) = ''sys''"
  by (simp_all add: testAgent_def RegisterTool_def echoTool_def)

lemma echo_run:
  assumes k: "4 \<le> k"
    and j: "marshal x1 = Inr j1" "marshal x2 = Inr j2" "marshal x3 = Inr j3"
    and a: "a = testAgent k [echoTool]
                  [Inr (reply ''tool_calls'' t1 [request i1 ''echo'' x1] n1),
                   Inr (reply ''tool_calls'' t2 [request i2 ''echo'' x2] n2),
                   Inr (reply ''tool_calls'' t3 [request i3 ''echo'' x3] n3),
                   Inr (reply ''stop'' t4 tcs4 n4)]"
  shows "\<exists>st4. Run_loop marshal a (Run_init a p env0) = (None, st4)
           \<and> r_loopCount st4 = 4
           \<and> r_lastResponse st4 = Some (reply ''stop'' t4 tcs4 n4)
           \<and> r_messages st4 =
               [RoleContent ''system'' ''sys'', RoleContent ''user'' p,
                AssistantToolCalls [request i1 ''echo'' x1], ToolResponse j1 i1,
                AssistantToolCalls [request i2 ''echo'' x2], ToolResponse j2 i2,
                AssistantToolCalls [request i3 ''echo'' x3], ToolResponse j3 i3]"
proof -
  let ?rs = "[Inr (reply ''tool_calls'' t1 [request i1 ''echo'' x1] n1),
                   Inr (reply ''tool_calls'' t2 [request i2 ''echo'' x2] n2),
                   Inr (reply ''tool_calls'' t3 [request i3 ''echo'' x3] n3),
                   Inr (reply ''stop'' t4 tcs4 n4)]"
  let ?st0 = "Run_init a p env0"
  have c: "client a = scripted ?rs" and t: "tools a ''echo'' = Some echoTool"
    and m: "MaxLoops (config a) = k" and sp: "SystemPrompt (config a) = ''sys''"
    unfolding a by (rule testAgent_echo)+
  have st0: "world (r_env ?st0) = 0" "r_reason ?st0 \<noteq> ''stop''" "r_loopCount ?st0 = 0"
    "r_messages ?st0 = [RoleContent ''system'' ''sys'', RoleContent ''user'' p]"
    by (simp_all add: Run_init_def env0_def sp)
  define st1 where "st1 = ?st0\<lparr>r_loopCount := r_loopCount ?st0 + 1,
                 r_env := \<lparr>world = Suc (world (r_env ?st0)),
                           calls = calls (r_env ?st0)
                             @ [(r_messages ?st0, Inr (reply ''tool_calls'' t1 [request i1 ''echo'' x1] n1))]\<rparr>,
                 r_lastResponse := Some (reply ''tool_calls'' t1 [request i1 ''echo'' x1] n1),
                 r_reason := ''tool_calls'',
                 r_totalUsage := addUsage (r_totalUsage ?st0)
                                   (apiResponse.Usage (reply ''tool_calls'' t1 [request i1 ''echo'' x1] n1)),
                 r_messages := r_messages ?st0 @ [AssistantToolCalls [request i1 ''echo'' x1], ToolResponse j1 i1]\<rparr>"
  have p1: "Run_loop marshal a ?st0 = Run_loop marshal a st1"
    unfolding st1_def using k by (intro echo_pass [where marshal = marshal and x = x1, OF c t _ _ j(1)]) (simp_all add: st0 m)
  have st1: "world (r_env st1) = 1" "r_reason st1 \<noteq> ''stop''" "r_loopCount st1 = 1"
    "r_messages st1 = [RoleContent ''system'' ''sys'', RoleContent ''user'' p,
        AssistantToolCalls [request i1 ''echo'' x1], ToolResponse j1 i1]"
    by (simp_all add: st1_def st0)
  define st2 where "st2 = st1\<lparr>r_loopCount := r_loopCount st1 + 1,
                 r_env := \<lparr>world = Suc (world (r_env st1)),
                           calls = calls (r_env st1)
                             @ [(r_messages st1, Inr (reply ''tool_calls'' t2 [request i2 ''echo'' x2] n2))]\<rparr>,
                 r_lastResponse := Some (reply ''tool_calls'' t2 [request i2 ''echo'' x2] n2),
                 r_reason := ''tool_calls'',
                 r_totalUsage := addUsage (r_totalUsage st1)
                                   (apiResponse.Usage (reply ''tool_calls'' t2 [request i2 ''echo'' x2] n2)),
                 r_messages := r_messages st1 @ [AssistantToolCalls [request i2 ''echo'' x2], ToolResponse j2 i2]\<rparr>"
  have p2: "Run_loop marshal a st1 = Run_loop marshal a st2"
    unfolding st2_def using k by (intro echo_pass [where marshal = marshal and x = x2, OF c t _ _ j(2)]) (simp_all add: st1 m)
  have st2: "world (r_env st2) = 2" "r_reason st2 \<noteq> ''stop''" "r_loopCount st2 = 2"
    "r_messages st2 = [RoleContent ''system'' ''sys'', RoleContent ''user'' p,
        AssistantToolCalls [request i1 ''echo'' x1], ToolResponse j1 i1,
        AssistantToolCalls [request i2 ''echo'' x2], ToolResponse j2 i2]"
    by (simp_all add: st2_def st1)
  define st3 where "st3 = st2\<lparr>r_loopCount := r_loopCount st2 + 1,
                 r_env := \<lparr>world = Suc (world (r_env st2)),
                           calls = calls (r_env st2)
                             @ [(r_messages st2, Inr (reply ''tool_calls'' t3 [request i3 ''echo'' x3] n3))]\<rparr>,
                 r_lastResponse := Some (reply ''tool_calls'' t3 [request i3 ''echo'' x3] n3),
                 r_reason := ''tool_calls'',
                 r_totalUsage := addUsage (r_totalUsage st2)
                                   (apiResponse.Usage (reply ''tool_calls'' t3 [request i3 ''echo'' x3] n3)),
                 r_messages := r_messages st2 @ [AssistantToolCalls [request i3 ''echo'' x3], ToolResponse j3 i3]\<rparr>"
  have p3: "Run_loop marshal a st2 = Run_loop marshal a st3"
    unfolding st3_def using k by (intro echo_pass [where marshal = marshal and x = x3, OF c t _ _ j(3)]) (simp_all add: st2 m)
  have st3: "world (r_env st3) = 3" "r_reason st3 \<noteq> ''stop''" "r_loopCount st3 = 3"
    "r_messages st3 = [RoleContent ''system'' ''sys'', RoleContent ''user'' p,
        AssistantToolCalls [request i1 ''echo'' x1], ToolResponse j1 i1,
        AssistantToolCalls [request i2 ''echo'' x2], ToolResponse j2 i2,
        AssistantToolCalls [request i3 ''echo'' x3], ToolResponse j3 i3]"
    by (simp_all add: st3_def st2)
  define st4 where "st4 = st3\<lparr>r_loopCount := r_loopCount st3 + 1,
                r_env := \<lparr>world = Suc (world (r_env st3)),
                          calls = calls (r_env st3) @ [(r_messages st3, Inr (reply ''stop'' t4 tcs4 n4))]\<rparr>,
                r_lastResponse := Some (reply ''stop'' t4 tcs4 n4),
                r_reason := ''stop'',
                r_totalUsage := addUsage (r_totalUsage st3) (apiResponse.Usage (reply ''stop'' t4 tcs4 n4))\<rparr>"
  have p4: "Run_loop marshal a st3 = (None, st4)"
    unfolding st4_def using k by (intro stop_pass [OF c]) (simp_all add: st3 m)
  have "Run_loop marshal a ?st0 = (None, st4)"
    by (simp only: p1 p2 p3 p4)
  moreover have "r_loopCount st4 = 4" "r_lastResponse st4 = Some (reply ''stop'' t4 tcs4 n4)"
    "r_messages st4 = [RoleContent ''system'' ''sys'', RoleContent ''user'' p,
        AssistantToolCalls [request i1 ''echo'' x1], ToolResponse j1 i1,
        AssistantToolCalls [request i2 ''echo'' x2], ToolResponse j2 i2,
        AssistantToolCalls [request i3 ''echo'' x3], ToolResponse j3 i3]"
    by (simp_all add: st4_def st3)
  ultimately show ?thesis by blast
qed

text \<open>
  C8 (amended). Take a registry with the single tool \<open>echo\<close>, whose handler returns its
  input, a ceiling of at least 4, and an endpoint that answers the first three calls
  with \<open>tool_calls\<close> and one request for \<open>echo\<close> each, and the fourth with \<open>stop\<close>;
  the three results can be encoded. Then \<open>Run\<close> returns \<open>LoopCount = 4\<close> and the text of
  the fourth response as \<open>Content\<close>, and its own conversation holds 8 messages at that
  point: system, user and three pairs of assistant and tool message; \<open>Run\<close> appends no
  final assistant message. The same exchange as the first turn of a fresh session leaves
  a history of 9 messages, these 8 and the final assistant message, with the session's
  counter at 4 and the completion event carrying the text.
\<close>

theorem echo_three_iterations:
  assumes "4 \<le> k"
    and "marshal x1 = Inr j1" and "marshal x2 = Inr j2" and "marshal x3 = Inr j3"
    and "a = testAgent k [echoTool]
                  [Inr (reply ''tool_calls'' t1 [request i1 ''echo'' x1] n1),
                   Inr (reply ''tool_calls'' t2 [request i2 ''echo'' x2] n2),
                   Inr (reply ''tool_calls'' t3 [request i3 ''echo'' x3] n3),
                   Inr (reply ''stop'' t4 tcs4 n4)]"
    and "msgs = [RoleContent ''system'' ''sys'', RoleContent ''user'' p,
                AssistantToolCalls [request i1 ''echo'' x1], ToolResponse j1 i1,
                AssistantToolCalls [request i2 ''echo'' x2], ToolResponse j2 i2,
                AssistantToolCalls [request i3 ''echo'' x3], ToolResponse j3 i3]"
  shows "(\<exists>u. fst (Run marshal a p env0)
              = Inr \<lparr>Response.Content = t4, Response.Usage = u,
                     Response.FinishReason = ''stop'', LoopCount = 4\<rparr>)
       \<and> r_messages (snd (Run_loop marshal a (Run_init a p env0))) = msgs
       \<and> length (r_messages (snd (Run_loop marshal a (Run_init a p env0)))) = 8
       \<and> (\<exists>s' e'. SendTurn marshal a (NewSession a False runtime) p env0 = (None, s', e')
              \<and> GetHistory s' = msgs @ [RoleContent ''assistant'' t4]
              \<and> length (GetHistory s') = 9
              \<and> loopCount s' = 4
              \<and> last (Events s') = completeEvent t4 4)"
proof -
  from echo_run [OF assms(1-5), of p] obtain st4 where
    loop: "Run_loop marshal a (Run_init a p env0) = (None, st4)"
    and st4: "r_loopCount st4 = 4" "r_lastResponse st4 = Some (reply ''stop'' t4 tcs4 n4)"
      "r_messages st4 = msgs"
    unfolding assms(6) by blast
  have len: "length msgs = 8" by (simp add: assms(6))
  have ch: "Choices (reply ''stop'' t4 tcs4 n4)
      = [\<lparr>Index = 0,
          Message = \<lparr>Role = ''assistant'', apiMessage.Content = t4, ToolCalls = tcs4, ToolCallID = []\<rparr>,
          apiChoice.FinishReason = ''stop''\<rparr>]"
    by (simp add: reply_def)
  have 1: "\<exists>u. fst (Run marshal a p env0)
              = Inr \<lparr>Response.Content = t4, Response.Usage = u,
                     Response.FinishReason = ''stop'', LoopCount = 4\<rparr>"
    by (simp add: Run_def loop Run_result_def st4 ch)
  have 2: "r_messages (snd (Run_loop marshal a (Run_init a p env0))) = msgs"
    by (simp add: loop st4)
  have sp: "SystemPrompt (config a) = ''sys''"
    unfolding assms(5) by (rule testAgent_echo)
  let ?s1 = "(NewSession a False runtime)\<lparr>messages := messages (NewSession a False runtime) @ [RoleContent ''user'' p]\<rparr>"
  let ?ts = "turn_init ?s1 env0"
  have ts: "as_run ?ts = Run_init a p env0"
    by (simp add: as_run_def turn_init_def Run_init_def NewSession_def)
  obtain out ts' where tl: "turn_loop marshal a ?ts = (out, ts')"
    by (cases "turn_loop marshal a ?ts")
  from turn_loop_simulates [OF tl] loop ts have out: "out = None" and ts': "as_run ts' = st4"
    by simp_all
  from ts' st4 have f: "t_messages ts' = msgs" "t_lastResponse ts' = Some (reply ''stop'' t4 tcs4 n4)"
    "loopCount (t_session ts') = 4"
    by auto
  from turn_loop_session [OF tl] have live: "\<not> ctx_done (t_session ts')"
    by (simp add: turn_init_def NewSession_def)
  have send: "SendTurn marshal a (NewSession a False runtime) p env0 = turn_result (turn_loop marshal a ?ts)"
    by (simp add: SendTurn_def Send_def runTurn_def NewSession_def)
  have 3: "\<exists>s' e'. SendTurn marshal a (NewSession a False runtime) p env0 = (None, s', e')
              \<and> GetHistory s' = msgs @ [RoleContent ''assistant'' t4]
              \<and> length (GetHistory s') = 9
              \<and> loopCount s' = 4
              \<and> last (Events s') = completeEvent t4 4"
    using live len
    by (simp add: send tl out turn_result_def f ch Let_def GetHistory_def Events_def
          sendEvent_def completeEvent_def)
  from 1 2 3 len show ?thesis by simp
qed

theorem echo_three_iterations_witness:
  "(4::int) \<le> 20 \<and> quoted ''a'' = Inr (CHR 0x22 # ''a'' @ [CHR 0x22])
   \<and> LoopCount (projr (fst (Run quoted (testAgent 20 [echoTool] scriptEcho) ''hi'' env0))) = 4
   \<and> Response.Content (projr (fst (Run quoted (testAgent 20 [echoTool] scriptEcho) ''hi'' env0))) = ''done''
   \<and> length (r_messages (snd (Run_loop quoted (testAgent 20 [echoTool] scriptEcho)
                                  (Run_init (testAgent 20 [echoTool] scriptEcho) ''hi'' env0)))) = 8
   \<and> (\<exists>s' e'. SendTurn quoted (testAgent 20 [echoTool] scriptEcho)
                  (NewSession (testAgent 20 [echoTool] scriptEcho) False pickSend) ''hi'' env0 = (None, s', e')
          \<and> length (GetHistory s') = 9 \<and> loopCount s' = 4
          \<and> last (Events s') = completeEvent ''done'' 4)"
proof -
  let ?a = "testAgent 20 [echoTool] scriptEcho"
  have k: "(4::int) \<le> 20" by simp
  have j: "quoted ''a'' = Inr (CHR 0x22 # ''a'' @ [CHR 0x22])"
    "quoted ''b'' = Inr (CHR 0x22 # ''b'' @ [CHR 0x22])"
    "quoted ''c'' = Inr (CHR 0x22 # ''c'' @ [CHR 0x22])"
    by (simp_all add: quoted_def)
  have a: "?a = testAgent 20 [echoTool]
                  [Inr (reply ''tool_calls'' [] [request ''c1'' ''echo'' ''a''] 10),
                   Inr (reply ''tool_calls'' [] [request ''c2'' ''echo'' ''b''] 20),
                   Inr (reply ''tool_calls'' [] [request ''c3'' ''echo'' ''c''] 30),
                   Inr (reply ''stop'' ''done'' [] 40)]"
    by (simp add: scriptEcho_def)
  note T = echo_three_iterations [where marshal = quoted and ?x1.0 = "''a''" and ?x2.0 = "''b''"
      and ?x3.0 = "''c''" and p = "''hi''" and runtime = pickSend, OF k j a refl]
  from T [THEN conjunct1] obtain u where
    "fst (Run quoted ?a ''hi'' env0)
       = Inr \<lparr>Response.Content = ''done'', Response.Usage = u,
              Response.FinishReason = ''stop'', LoopCount = 4\<rparr>" ..
  then have r: "LoopCount (projr (fst (Run quoted ?a ''hi'' env0))) = 4"
    "Response.Content (projr (fst (Run quoted ?a ''hi'' env0))) = ''done''"
    by simp_all
  note l = T [THEN conjunct2, THEN conjunct2, THEN conjunct1]
  from T [THEN conjunct2, THEN conjunct2, THEN conjunct2]
  have "\<exists>s' e'. SendTurn quoted ?a (NewSession ?a False pickSend) ''hi'' env0 = (None, s', e')
          \<and> length (GetHistory s') = 9 \<and> loopCount s' = 4
          \<and> last (Events s') = completeEvent ''done'' 4"
    by blast
  with k j(1) r l show ?thesis by (intro conjI)
qed

text \<open>
  As stated the claim fails for \<open>Run\<close>: the result has \<open>LoopCount = 4\<close> and the text
  of the fourth response, but the conversation \<open>Run\<close> ends with has 8 messages.
\<close>

theorem echo_three_iterations_counterexample:
  "LoopCount (projr (fst (Run quoted (testAgent 20 [echoTool] scriptEcho) ''hi'' env0))) = 4
   \<and> Response.Content (projr (fst (Run quoted (testAgent 20 [echoTool] scriptEcho) ''hi'' env0))) = ''done''
   \<and> length (r_messages (snd (Run_loop quoted (testAgent 20 [echoTool] scriptEcho)
                                  (Run_init (testAgent 20 [echoTool] scriptEcho) ''hi'' env0)))) = 8"
  by code_simp

section \<open>Closing a session\<close>

lemma session_ok_NewSession: "session_ok (NewSession a parent_done runtime)"
  by (simp add: session_ok_def NewSession_def)

lemma session_ok_Close: "Close s = Inr s' \<Longrightarrow> session_ok s \<Longrightarrow> session_ok s'"
  by (auto simp: Close_def close_chan_def session_ok_def Let_def split: if_splits)

text \<open>
  C9. On a session as the package produces it, \<open>Close\<close> returns normally and leaves the
  session closed; a second \<open>Close\<close> changes nothing and returns normally; \<open>Send\<close> then
  fails with the closed-session error, appends nothing and starts no turn; and
  \<open>SendInput\<close> returns that error instead of waiting. Since none of the three changes
  a closed session, the same holds after any number of them.
\<close>

theorem Close_idempotent:
  assumes "session_ok s"
  shows "\<exists>s1. Close s = Inr s1 \<and> closed s1 \<and> session_ok s1
           \<and> Close s1 = Inr s1
           \<and> (\<forall>m. Send s1 m = Inl SessionClosed)
           \<and> (\<forall>marshal (a :: ('v, 'w) Agent) m e.
                 SendTurn marshal a s1 m e = (Some SessionClosed, s1, e))
           \<and> (\<forall>x receiver prefer_send.
                 SendInput s1 x receiver prefer_send = Returns (Some SessionClosed, s1))"
proof (cases "closed s")
  case True
  then have "Close s = Inr s" by (simp add: Close_def)
  with True assms show ?thesis
    by (simp add: Send_def SendTurn_def SendInput_def)
next
  case False
  define s1 where "s1 = s\<lparr>closed := True, ctx_done := True,
      events := (events s)\<lparr>is_closed := True\<rparr>, input := (input s)\<lparr>is_closed := True\<rparr>\<rparr>"
  from False assms have "Close s = Inr s1"
    by (simp add: Close_def close_chan_def session_ok_def s1_def Let_def)
  moreover have "closed s1" "session_ok s1"
    by (simp_all add: s1_def session_ok_def)
  moreover from \<open>closed s1\<close> have "Close s1 = Inr s1" by (simp add: Close_def)
  ultimately show ?thesis
    by (simp add: Send_def SendTurn_def SendInput_def)
qed

theorem Close_idempotent_witness:
  "session_ok (NewSession (testAgent 3 [] []) False pickSend)
   \<and> (\<exists>s1. Close (NewSession (testAgent 3 [] []) False pickSend) = Inr s1 \<and> closed s1 \<and> Close s1 = Inr s1
        \<and> Send s1 ''hello'' = Inl SessionClosed
        \<and> SendTurn quoted (testAgent 3 [] []) s1 ''hello'' env0 = (Some SessionClosed, s1, env0)
        \<and> SendInput s1 ''yes'' False False = Returns (Some SessionClosed, s1))"
proof -
  have ok: "session_ok (NewSession (testAgent 3 [] []) False pickSend)"
    by (simp add: session_ok_def NewSession_def)
  from Close_idempotent [OF ok] obtain s1 where
    "Close (NewSession (testAgent 3 [] []) False pickSend) = Inr s1" "closed s1" "Close s1 = Inr s1"
    "\<forall>m. Send s1 m = Inl SessionClosed"
    "\<forall>(marshal :: string \<Rightarrow> string + string) (a :: (string, nat) Agent) m e.
        SendTurn marshal a s1 m e = (Some SessionClosed, s1, e)"
    "\<forall>x receiver prefer_send. SendInput s1 x receiver prefer_send = Returns (Some SessionClosed, s1)"
    by blast
  with ok show ?thesis by blast
qed

end
